theory Spec2Isabelle
  imports Complex_Main
begin

section \<open>The free-fall simulator of \<^verbatim>\<open>src/FreeFallSimulation.tsx\<close>\<close>

text \<open>
  The component keeps its whole state in React hooks and changes it only in event
  handlers and timer callbacks, each of which runs to completion on the single UI
  thread. The embedding therefore has one record \<open>app\<close> for the hooks' values and one
  function per handler, taking the state before the handler to the state after it.

  A JavaScript \<^verbatim>\<open>number\<close> is modelled as an exact \<open>real\<close>: the arithmetic of the
  tick callback is the source's, term by term, without the rounding of IEEE doubles
  (so \<^verbatim>\<open>time += 0.1\<close>, done \<open>n\<close> times, is exactly \<open>n / 10\<close>). The one place where
  \<^verbatim>\<open>NaN\<close> can enter is \<^verbatim>\<open>parseFloat\<close>, whose result is a \<open>real option\<close> with
  \<open>None\<close> for \<^verbatim>\<open>NaN\<close>. Strings are \<open>string\<close>; the characters of the header row that
  are outside ASCII are written as the bytes of their UTF-8 encoding, which is the
  encoding of the exported file.
\<close>

subsection \<open>Built-in array and string operations\<close>

text \<open>
  \<^verbatim>\<open>Array.prototype.slice(start, end)\<close>: a negative index counts from the end of the
  array, both indices are clamped to the array, and a missing \<^verbatim>\<open>end\<close> (\<open>None\<close>) is
  the length.
\<close>

definition slice :: "'a list \<Rightarrow> int \<Rightarrow> int option \<Rightarrow> 'a list" where
  "slice xs start fin =
     (let len = int (length xs);
          k = (if start < 0 then max (len + start) 0 else min start len);
          final = (case fin of
                     None \<Rightarrow> len
                   | Some e \<Rightarrow> if e < 0 then max (len + e) 0 else min e len)
      in take (nat (final - k)) (drop (nat k) xs))"

text \<open>\<^verbatim>\<open>Array.prototype.join(sep)\<close> on an array of strings.\<close>

fun join :: "string \<Rightarrow> string list \<Rightarrow> string" where
  "join sep [] = []"
| "join sep [x] = x"
| "join sep (x # y # ys) = x @ sep @ join sep (y # ys)"

text \<open>
  \<^verbatim>\<open>String.prototype.replace(p, r)\<close> with a string pattern: only the first occurrence
  of \<open>p\<close> is replaced.
\<close>

fun replace :: "string \<Rightarrow> string \<Rightarrow> string \<Rightarrow> string" where
  "replace [] p r = (if p = [] then r else [])"
| "replace (c # cs) p r =
     (if take (length p) (c # cs) = p then r @ drop (length p) (c # cs)
      else c # replace cs p r)"

subsection \<open>Numbers and their decimal text\<close>

definition digit_char :: "nat \<Rightarrow> char" where
  "digit_char d = ''0123456789'' ! d"

text \<open>The decimal digits of a natural number, without leading zeros (\<open>''0''\<close> for 0).\<close>

function digits :: "nat \<Rightarrow> string" where
  "digits n = (if n < 10 then [digit_char n] else digits (n div 10) @ [digit_char (n mod 10)])"
  by pat_completeness auto
termination
  by (relation "measure (\<lambda>n. n)") auto

text \<open>
  \<^verbatim>\<open>Number.prototype.toFixed(f)\<close>, after its specification: the sign is split off,
  \<open>n\<close> is the integer nearest to \<open>x * 10 ^ f\<close> (the larger one at a tie), its digits are
  padded with zeros to at least \<open>f + 1\<close> characters, and the point goes before the last
  \<open>f\<close> of them. The branch for \<open>x \<ge> 10 ^ 21\<close>, which prints an exponent, is not
  modelled.
\<close>

definition toFixed :: "real \<Rightarrow> nat \<Rightarrow> string" where
  "toFixed x f =
     (let s = (if x < 0 then ''-'' else '''');
          n = nat \<lfloor>\<bar>x\<bar> * 10 ^ f + 1 / 2\<rfloor>;
          m = digits n;
          m = (if f \<noteq> 0
               then (let k = length m;
                         m = (if k \<le> f then replicate (f + 1 - k) (CHR ''0'') @ m else m);
                         k = (if k \<le> f then f + 1 else k)
                     in take (k - f) m @ ''.'' @ drop (k - f) m)
               else m)
      in s @ m)"

definition is_digit :: "char \<Rightarrow> bool" where
  "is_digit c = (c \<in> set ''0123456789'')"

definition digit_val :: "char \<Rightarrow> nat" where
  "digit_val c = of_char c - 48"

definition digits_val :: "string \<Rightarrow> nat" where
  "digits_val ds = foldl (\<lambda>a c. 10 * a + digit_val c) 0 ds"

text \<open>
  \<^verbatim>\<open>parseFloat\<close>: the value of the longest prefix that is a decimal literal (a sign,
  digits, a point, digits), \<^verbatim>\<open>NaN\<close> (\<open>None\<close>) when there is none. Leading white space,
  exponents and \<^verbatim>\<open>Infinity\<close> are not modelled: the component applies \<^verbatim>\<open>parseFloat\<close>
  to results of \<^verbatim>\<open>toFixed\<close> only.
\<close>

definition parse_unsigned :: "string \<Rightarrow> real option" where
  "parse_unsigned s =
     (let ip = takeWhile is_digit s;
          r = dropWhile is_digit s;
          fp = (case r of [] \<Rightarrow> [] | c # f \<Rightarrow> if c = CHR ''.'' then takeWhile is_digit f else [])
      in if ip = [] \<and> fp = [] then None
         else Some (real (digits_val ip) + real (digits_val fp) / 10 ^ length fp))"

definition parseFloat :: "string \<Rightarrow> real option" where
  "parseFloat s =
     (case s of
        [] \<Rightarrow> None
      | c # r \<Rightarrow>
          if c = CHR ''-'' then map_option uminus (parse_unsigned r)
          else if c = CHR ''+'' then parse_unsigned r
          else parse_unsigned s)"

text \<open>
  \<^verbatim>\<open>Number.prototype.toString()\<close> of a record field. The fields are results of
  \<^verbatim>\<open>parseFloat(x.toFixed(2))\<close> (or \<^verbatim>\<open>toFixed(1)\<close>): \<^verbatim>\<open>NaN\<close> or a number of at most two
  fractional digits, which prints as its integer part and, unless they are all zero,
  a point and the fractional digits without trailing zeros. The definition reads the
  hundredths of its argument, so it is the text of the number for exactly these values
  (below \<open>10 ^ 21\<close>, where JavaScript switches to an exponent).
\<close>

definition number_toString :: "real option \<Rightarrow> string" where
  "number_toString v =
     (case v of
        None \<Rightarrow> ''NaN''
      | Some x \<Rightarrow>
          (let n = nat \<lfloor>\<bar>x\<bar> * 100\<rfloor>;
               ip = n div 100;
               fp = n mod 100
           in (if x < 0 then ''-'' else '''') @ digits ip @
              (if fp = 0 then ''''
               else if fp mod 10 = 0 then ''.'' @ [digit_char (fp div 10)]
               else ''.'' @ [digit_char (fp div 10), digit_char (fp mod 10)])))"

subsection \<open>The data model\<close>

datatype planet = earth | moon | mars | custom

text \<open>The \<^verbatim>\<open>gravity\<close> column of the table \<^verbatim>\<open>PLANETS\<close>.\<close>

definition PLANETS_gravity :: "planet \<Rightarrow> real" where
  "PLANETS_gravity p = (case p of earth \<Rightarrow> 9.81 | moon \<Rightarrow> 1.62 | mars \<Rightarrow> 3.71 | custom \<Rightarrow> 9.81)"

text \<open>
  \<^verbatim>\<open>interface SimulationData\<close>, one row of the history. The field \<^verbatim>\<open>row.time\<close> is
  \<open>row_time\<close>, and so on: the names \<open>time\<close> and \<open>displacement\<close> belong to
  \<^verbatim>\<open>SimulationState\<close> below. Every field is the result of a \<^verbatim>\<open>parseFloat\<close>.
\<close>

record SimulationData =
  row_time :: "real option"
  row_height :: "real option"
  row_velocity :: "real option"
  row_acceleration :: "real option"
  row_displacement :: "real option"
  row_mass :: "real option"

record SimulationState =
  isRunning :: bool
  time :: real
  currentHeight :: real
  currentVelocity :: real
  displacement :: real
  ballY :: real

text \<open>
  What the callback given to \<^verbatim>\<open>setInterval\<close> in \<^verbatim>\<open>startSimulation\<close> holds: its own
  variable \<^verbatim>\<open>time\<close> and the values of the render in which the simulation was started.
\<close>

record tick_closure =
  cl_time :: real
  cl_initialVelocity :: real
  cl_initialHeight :: real
  cl_gravity :: real
  cl_mass :: real
  cl_ballRadius :: real
  cl_initialBallY :: real

text \<open>The same for the timer of \<^verbatim>\<open>bounceEffect\<close>.\<close>

record bounce_closure =
  bounceCount :: nat
  bounce_ballRadius :: real

text \<open>
  The hooks of the component. \<open>intervalRef\<close> is \<^verbatim>\<open>intervalRef.current\<close>: the running
  timer of the tick driver with its callback, or \<open>None\<close> for \<^verbatim>\<open>null\<close>. The timers of
  \<^verbatim>\<open>bounceEffect\<close> are held by nothing but the JavaScript run time; \<open>bounceIntervals\<close>
  lists those that have not been cleared. The two flags that open the modal and unfold
  the table only choose what is drawn and are left out.
\<close>

record app =
  initialVelocity :: real
  initialHeight :: real
  mass :: real
  planet :: planet
  customGravity :: real
  simulationState :: SimulationState
  dataHistory :: "SimulationData list"
  trail :: "real list"
  mainTableCurrentPage :: int
  modalCurrentPage :: int
  intervalRef :: "tick_closure option"
  bounceIntervals :: "bounce_closure list"

definition itemsPerPage :: int where
  "itemsPerPage = 20"

definition SCALE :: real where
  "SCALE = 4"

definition CANVAS_WIDTH :: real where
  "CANVAS_WIDTH = 320"

definition CANVAS_HEIGHT :: real where
  "CANVAS_HEIGHT = 480"

text \<open>
  The values the hooks are created with. The effect that runs when the component is
  mounted calls \<^verbatim>\<open>restartSimulation\<close>: it is the event \<open>Restart\<close> below.
\<close>

definition init :: app where
  "init = \<lparr> initialVelocity = 0, initialHeight = 50, mass = 1, planet = earth,
            customGravity = 9.81,
            simulationState = \<lparr> isRunning = False, time = 0, currentHeight = 50,
                                currentVelocity = 0, displacement = 0, ballY = 0 \<rparr>,
            dataHistory = [], trail = [],
            mainTableCurrentPage = 1, modalCurrentPage = 1,
            intervalRef = None, bounceIntervals = [] \<rparr>"

definition gravity :: "app \<Rightarrow> real" where
  "gravity s = (if planet s = custom then customGravity s else PLANETS_gravity (planet s))"

definition ballRadius :: "app \<Rightarrow> real" where
  "ballRadius s = min 20 (8 + mass s * 2)"

subsection \<open>Pagination\<close>

definition mainTotalPages :: "app \<Rightarrow> int" where
  "mainTotalPages s = \<lceil>real (length (dataHistory s)) / real_of_int itemsPerPage\<rceil>"

definition mainStartIndex :: "app \<Rightarrow> int" where
  "mainStartIndex s = (mainTableCurrentPage s - 1) * itemsPerPage"

definition mainEndIndex :: "app \<Rightarrow> int" where
  "mainEndIndex s = mainStartIndex s + itemsPerPage"

definition mainCurrentData :: "app \<Rightarrow> SimulationData list" where
  "mainCurrentData s = slice (dataHistory s) (mainStartIndex s) (Some (mainEndIndex s))"

definition modalTotalPages :: "app \<Rightarrow> int" where
  "modalTotalPages s = \<lceil>real (length (dataHistory s)) / real_of_int itemsPerPage\<rceil>"

definition modalStartIndex :: "app \<Rightarrow> int" where
  "modalStartIndex s = (modalCurrentPage s - 1) * itemsPerPage"

definition modalEndIndex :: "app \<Rightarrow> int" where
  "modalEndIndex s = modalStartIndex s + itemsPerPage"

definition modalCurrentData :: "app \<Rightarrow> SimulationData list" where
  "modalCurrentData s = slice (dataHistory s) (modalStartIndex s) (Some (modalEndIndex s))"

definition handleMainTablePageChange :: "int \<Rightarrow> app \<Rightarrow> app" where
  "handleMainTablePageChange page s =
     (if page \<ge> 1 \<and> page \<le> mainTotalPages s then s\<lparr> mainTableCurrentPage := page \<rparr> else s)"

definition handleModalPageChange :: "int \<Rightarrow> app \<Rightarrow> app" where
  "handleModalPageChange page s =
     (if page \<ge> 1 \<and> page \<le> modalTotalPages s then s\<lparr> modalCurrentPage := page \<rparr> else s)"

subsection \<open>The tick driver\<close>

definition calculateInitialBallY :: "app \<Rightarrow> real" where
  "calculateInitialBallY s =
     (let y = CANVAS_HEIGHT - ballRadius s - 4 - (initialHeight s * SCALE)
      in max (ballRadius s) y)"

definition stopSimulation :: "app \<Rightarrow> app" where
  "stopSimulation s =
     s\<lparr> intervalRef := None,
        simulationState := (simulationState s)\<lparr> isRunning := False \<rparr> \<rparr>"

text \<open>
  \<^verbatim>\<open>bounceEffect\<close> starts a timer of its own, with a counter at 0 and the ball radius
  of the render it was created in.
\<close>

definition bounceEffect :: "real \<Rightarrow> app \<Rightarrow> app" where
  "bounceEffect r s =
     s\<lparr> bounceIntervals := bounceIntervals s @ [\<lparr> bounceCount = 0, bounce_ballRadius = r \<rparr>] \<rparr>"

text \<open>One run of the callback of the \<open>i\<close>-th bounce timer that is still set.\<close>

definition bounceTick :: "nat \<Rightarrow> app \<Rightarrow> app" where
  "bounceTick i s =
     (if i < length (bounceIntervals s)
      then (let b = bounceIntervals s ! i;
                r = bounce_ballRadius b;
                s1 = s\<lparr> simulationState := (simulationState s)
                          \<lparr> ballY := (if bounceCount b mod 2 = 0
                                       then CANVAS_HEIGHT - r - 4 - 10
                                       else CANVAS_HEIGHT - r - 4) \<rparr> \<rparr>;
                n = bounceCount b + 1
            in if n \<ge> 6
               then s1\<lparr> bounceIntervals := take i (bounceIntervals s) @ drop (Suc i) (bounceIntervals s),
                        simulationState := (simulationState s1)\<lparr> ballY := CANVAS_HEIGHT - r - 4 \<rparr> \<rparr>
               else s1\<lparr> bounceIntervals := (bounceIntervals s)[i := b\<lparr> bounceCount := n \<rparr>] \<rparr>)
      else s)"

definition startSimulation :: "app \<Rightarrow> app" where
  "startSimulation s =
     (if isRunning (simulationState s) then s
      else (let initialBallY = calculateInitialBallY s
            in s\<lparr> simulationState :=
                    \<lparr> isRunning = True, time = 0, currentHeight = initialHeight s,
                      currentVelocity = initialVelocity s, displacement = 0,
                      ballY = initialBallY \<rparr>,
                  dataHistory := [],
                  trail := [],
                  mainTableCurrentPage := 1,
                  modalCurrentPage := 1,
                  intervalRef :=
                    Some \<lparr> cl_time = 0, cl_initialVelocity = initialVelocity s,
                           cl_initialHeight = initialHeight s, cl_gravity = gravity s,
                           cl_mass = mass s, cl_ballRadius = ballRadius s,
                           cl_initialBallY = initialBallY \<rparr> \<rparr>))"

text \<open>
  The callback of the interval. It runs only while the timer is set; with no timer
  (\<open>intervalRef s = None\<close>) there is no tick and the state stays as it is.
\<close>

definition tick :: "app \<Rightarrow> app" where
  "tick s =
     (case intervalRef s of
        None \<Rightarrow> s
      | Some c \<Rightarrow>
          (let time = cl_time c + 0.1;
               velocity = cl_initialVelocity c + cl_gravity c * time;
               displacement = cl_initialVelocity c * time + 0.5 * cl_gravity c * time * time;
               currentHeight = max 0 (cl_initialHeight c - displacement);
               ballY = cl_initialBallY c + displacement * SCALE;
               actualBallY = min ballY (CANVAS_HEIGHT - cl_ballRadius c - 4);
               newTrail = trail s @ [actualBallY];
               newData = \<lparr> row_time = parseFloat (toFixed time 2),
                           row_height = parseFloat (toFixed currentHeight 2),
                           row_velocity = parseFloat (toFixed velocity 2),
                           row_acceleration = parseFloat (toFixed (cl_gravity c) 2),
                           row_displacement = parseFloat (toFixed displacement 2),
                           row_mass = parseFloat (toFixed (cl_mass c) 1) \<rparr>;
               s1 = s\<lparr> intervalRef := Some (c\<lparr> cl_time := time \<rparr>),
                        simulationState := (simulationState s)
                          \<lparr> time := time, currentHeight := currentHeight,
                            currentVelocity := velocity, displacement := displacement,
                            ballY := actualBallY \<rparr>,
                        trail := (if length newTrail > 30 then slice newTrail (- 30) None
                                  else newTrail),
                        dataHistory := dataHistory s @ [newData] \<rparr>
           in if currentHeight \<le> 0.001
              then bounceEffect (cl_ballRadius c) (stopSimulation s1)
              else s1))"

definition restartSimulation :: "app \<Rightarrow> app" where
  "restartSimulation s =
     (let s1 = stopSimulation s
      in s1\<lparr> simulationState :=
               \<lparr> isRunning = False, time = 0, currentHeight = initialHeight s,
                 currentVelocity = initialVelocity s, displacement = 0,
                 ballY = calculateInitialBallY s \<rparr>,
             dataHistory := [],
             trail := [],
             mainTableCurrentPage := 1,
             modalCurrentPage := 1 \<rparr>)"

subsection \<open>The export\<close>

definition headers :: "string list" where
  "headers =
     [''Zaman (s)'',
      ''Y'' @ [CHR 0xC3, CHR 0xBC] @ ''kseklik (m)'',
      ''H'' @ [CHR 0xC4, CHR 0xB1] @ ''z (m/s)'',
      [CHR 0xC4, CHR 0xB0] @ ''vme (m/s'' @ [CHR 0xC2, CHR 0xB2] @ '')'',
      ''Yer De'' @ [CHR 0xC4, CHR 0x9F] @ ''i'' @ [CHR 0xC5, CHR 0x9F] @ ''tirme (m)'',
      ''K'' @ [CHR 0xC3, CHR 0xBC] @ ''tle (kg)'']"

definition csvRow :: "SimulationData \<Rightarrow> string" where
  "csvRow row =
     join '';''
       [replace (number_toString (row_time row)) ''.'' '','',
        replace (number_toString (row_height row)) ''.'' '','',
        replace (number_toString (row_velocity row)) ''.'' '','',
        replace (number_toString (row_acceleration row)) ''.'' '','',
        replace (number_toString (row_displacement row)) ''.'' '','',
        replace (number_toString (row_mass row)) ''.'' '','']"

definition csvContent :: "SimulationData list \<Rightarrow> string" where
  "csvContent h = join [CHR 0x0A] (join '';'' headers # map csvRow h)"

text \<open>
  \<^verbatim>\<open>downloadCSV\<close> changes no hook. Its effect is the file the browser is made to
  download: the result is the state, as it was, and the file as its name and its
  text, or \<open>None\<close> when the function returns before it makes one.
\<close>

definition downloadCSV :: "app \<Rightarrow> app \<times> (string \<times> string) option" where
  "downloadCSV s =
     (if length (dataHistory s) = 0 then (s, None)
      else (s, Some (''serbest_dusme_verileri.csv'', csvContent (dataHistory s))))"

subsection \<open>The parameter controls\<close>

text \<open>
  \<^verbatim>\<open>parseFloat(e.target.value) || d\<close>: the parsed number, or \<open>d\<close> when it is \<^verbatim>\<open>NaN\<close>
  or zero. The argument is the result of the \<^verbatim>\<open>parseFloat\<close>.
\<close>

definition or_default :: "real option \<Rightarrow> real \<Rightarrow> real" where
  "or_default v d = (case v of None \<Rightarrow> d | Some x \<Rightarrow> if x = 0 then d else x)"

subsection \<open>Events\<close>

text \<open>
  What can happen to the component: a click on a button, an edit of a field, a run of
  a timer's callback. The fields are disabled while the simulation runs, and the field
  of the custom gravity is there only for the planet \<open>custom\<close>.
\<close>

datatype event =
    Start
  | Tick
  | Stop
  | Restart
  | MainTablePageChange int
  | ModalPageChange int
  | Download
  | BounceTick nat
  | SetInitialVelocity "real option"
  | SetInitialHeight "real option"
  | SetMass "real option"
  | SetPlanet planet
  | SetCustomGravity "real option"

definition step :: "event \<Rightarrow> app \<Rightarrow> app" where
  "step e s =
     (case e of
        Start \<Rightarrow> startSimulation s
      | Tick \<Rightarrow> tick s
      | Stop \<Rightarrow> stopSimulation s
      | Restart \<Rightarrow> restartSimulation s
      | MainTablePageChange p \<Rightarrow> handleMainTablePageChange p s
      | ModalPageChange p \<Rightarrow> handleModalPageChange p s
      | Download \<Rightarrow> fst (downloadCSV s)
      | BounceTick i \<Rightarrow> bounceTick i s
      | SetInitialVelocity v \<Rightarrow>
          if isRunning (simulationState s) then s
          else s\<lparr> initialVelocity := or_default v 0 \<rparr>
      | SetInitialHeight v \<Rightarrow>
          if isRunning (simulationState s) then s
          else s\<lparr> initialHeight := max 1 (or_default v 1) \<rparr>
      | SetMass v \<Rightarrow>
          if isRunning (simulationState s) then s
          else s\<lparr> mass := max 0.1 (or_default v 0.1) \<rparr>
      | SetPlanet p \<Rightarrow>
          if isRunning (simulationState s) then s
          else s\<lparr> planet := p \<rparr>
      | SetCustomGravity v \<Rightarrow>
          if isRunning (simulationState s) \<or> planet s \<noteq> custom then s
          else s\<lparr> customGravity := max 0.1 (or_default v 0.1) \<rparr>)"

fun run :: "event list \<Rightarrow> app \<Rightarrow> app" where
  "run [] s = s"
| "run (e # es) s = run es (step e s)"

primrec ticks :: "nat \<Rightarrow> app \<Rightarrow> app" where
  "ticks 0 s = s"
| "ticks (Suc n) s = tick (ticks n s)"

subsection \<open>Notions used to state the properties\<close>

text \<open>
  The text \<^verbatim>\<open>toFixed\<close> makes of the integer \<open>n\<close> it has rounded to: the digits of
  \<open>n\<close> with the point before the last \<open>f\<close> of them.
\<close>

definition fixed_text :: "nat \<Rightarrow> nat \<Rightarrow> string" where
  "fixed_text n f =
     (if f \<noteq> 0
      then (let k = length (digits n);
                m = (if k \<le> f then replicate (f + 1 - k) (CHR ''0'') @ digits n else digits n);
                k = (if k \<le> f then f + 1 else k)
            in take (k - f) m @ ''.'' @ drop (k - f) m)
      else digits n)"

text \<open>
  The number \<open>x\<close> rounded to \<open>f\<close> fractional digits, a tie going away from zero: the
  value of \<^verbatim>\<open>parseFloat(x.toFixed(f))\<close>, as \<open>parseFloat_toFixed\<close> proves.
\<close>

definition rounded :: "real \<Rightarrow> nat \<Rightarrow> real" where
  "rounded x f =
     (if x < 0 then - (real (nat \<lfloor>\<bar>x\<bar> * 10 ^ f + 1 / 2\<rfloor>) / 10 ^ f)
      else real (nat \<lfloor>\<bar>x\<bar> * 10 ^ f + 1 / 2\<rfloor>) / 10 ^ f)"

text \<open>
  The kinematics as the specification writes them (section 4.2), for the initial
  velocity \<open>v0\<close>, the initial height \<open>h0\<close>, the gravity \<open>g\<close> and the elapsed time \<open>t\<close>.
  The tick driver is compared with them.
\<close>

definition velocity_at :: "real \<Rightarrow> real \<Rightarrow> real \<Rightarrow> real" where
  "velocity_at v0 g t = v0 + g * t"

definition displacement_at :: "real \<Rightarrow> real \<Rightarrow> real \<Rightarrow> real" where
  "displacement_at v0 g t = v0 * t + 0.5 * g * t\<^sup>2"

definition height_at :: "real \<Rightarrow> real \<Rightarrow> real \<Rightarrow> real \<Rightarrow> real" where
  "height_at h0 v0 g t = max 0 (h0 - displacement_at v0 g t)"

text \<open>The parameters the controls let through: height at least 1, mass and gravity at least 0.1.\<close>

definition valid_parameters :: "app \<Rightarrow> bool" where
  "valid_parameters s = (1 \<le> initialHeight s \<and> 0.1 \<le> mass s \<and> 0.1 \<le> gravity s)"

text \<open>
  The row that the \<open>j\<close>-th tick of a simulation started in the state \<open>s\<close> appends: the
  kinematics at the time \<open>j / 10\<close>, each number rounded as the table shows it.
\<close>

definition tick_record :: "app \<Rightarrow> nat \<Rightarrow> SimulationData" where
  "tick_record s j =
     (let t = real j / 10
      in \<lparr> row_time = Some (rounded t 2),
           row_height = Some (rounded (height_at (initialHeight s) (initialVelocity s) (gravity s) t) 2),
           row_velocity = Some (rounded (velocity_at (initialVelocity s) (gravity s) t) 2),
           row_acceleration = Some (rounded (gravity s) 2),
           row_displacement = Some (rounded (displacement_at (initialVelocity s) (gravity s) t) 2),
           row_mass = Some (rounded (mass s) 1) \<rparr>)"

text \<open>The position of the ball on the canvas that this tick draws and appends to the trail.\<close>

definition tick_position :: "app \<Rightarrow> nat \<Rightarrow> real" where
  "tick_position s j =
     min (calculateInitialBallY s
            + displacement_at (initialVelocity s) (gravity s) (real j / 10) * SCALE)
         (CANVAS_HEIGHT - ballRadius s - 4)"


text \<open>Both cursors are on a page that exists, or on page 1 when the history is empty.\<close>

definition cursors_in_range :: "app \<Rightarrow> bool" where
  "cursors_in_range s =
     (1 \<le> mainTableCurrentPage s \<and> mainTableCurrentPage s \<le> max 1 (mainTotalPages s) \<and>
      1 \<le> modalCurrentPage s \<and> modalCurrentPage s \<le> max 1 (modalTotalPages s))"

text \<open>
  The position that the next run of a tick callback appends to the trail, from what
  the callback holds.
\<close>

definition next_position :: "tick_closure \<Rightarrow> real" where
  "next_position c =
     (let time = cl_time c + 0.1;
          displacement = cl_initialVelocity c * time + 0.5 * cl_gravity c * time * time
      in min (cl_initialBallY c + displacement * SCALE) (CANVAS_HEIGHT - cl_ballRadius c - 4))"


text \<open>
  \<^verbatim>\<open>String.prototype.split(sep)\<close> for a separator of one character: the pieces of the
  text between the separators. It is how a reader of the exported file finds its lines
  and their fields.
\<close>

fun split_on :: "char \<Rightarrow> string \<Rightarrow> string list" where
  "split_on sep [] = [[]]"
| "split_on sep (c # cs) =
     (if c = sep then [] # split_on sep cs
      else (case split_on sep cs of [] \<Rightarrow> [[c]] | x # xs \<Rightarrow> (c # x) # xs))"

text \<open>A text with every point turned into a comma.\<close>

definition decimal_comma :: "string \<Rightarrow> string" where
  "decimal_comma t = map (\<lambda>c. if c = CHR ''.'' then CHR '','' else c) t"

text \<open>The six numbers of a row, in the order of the columns.\<close>

definition row_fields :: "SimulationData \<Rightarrow> real option list" where
  "row_fields row =
     [row_time row, row_height row, row_velocity row, row_acceleration row,
      row_displacement row, row_mass row]"

text \<open>
  What the callback of a simulation started in the state \<open>s\<close> holds after \<open>n\<close> of its
  runs.
\<close>

definition closure_after :: "app \<Rightarrow> nat \<Rightarrow> tick_closure" where
  "closure_after s n =
     \<lparr> cl_time = real n / 10, cl_initialVelocity = initialVelocity s,
       cl_initialHeight = initialHeight s, cl_gravity = gravity s, cl_mass = mass s,
       cl_ballRadius = ballRadius s, cl_initialBallY = calculateInitialBallY s \<rparr>"

text \<open>
  A number with at most two fractional digits, and a history whose rows hold only such
  numbers. For them \<open>number_toString\<close> is the text of the number.
\<close>

definition two_decimals :: "real option \<Rightarrow> bool" where
  "two_decimals v = (case v of None \<Rightarrow> False | Some x \<Rightarrow> x * 100 = of_int \<lfloor>x * 100\<rfloor>)"

definition rows_two_decimals :: "SimulationData list \<Rightarrow> bool" where
  "rows_two_decimals h = (\<forall>r\<in>set h. \<forall>v\<in>set (row_fields r). two_decimals v)"

text \<open>The two kinds of page-change requests.\<close>

definition is_main_change :: "event \<Rightarrow> bool" where
  "is_main_change e = (case e of MainTablePageChange p \<Rightarrow> True | _ \<Rightarrow> False)"

definition is_modal_change :: "event \<Rightarrow> bool" where
  "is_modal_change e = (case e of ModalPageChange p \<Rightarrow> True | _ \<Rightarrow> False)"

section \<open>Properties\<close>

subsection \<open>Decimal text: \<^verbatim>\<open>toFixed\<close> and \<^verbatim>\<open>parseFloat\<close>\<close>

text \<open>
  The equation of \<open>digits\<close> is recursive without a pattern, so it is used by hand.
\<close>

declare digits.simps [simp del]

lemma lt10_cases: "(d::nat) < 10 \<Longrightarrow> d = 0 \<or> d = 1 \<or> d = 2 \<or> d = 3 \<or> d = 4 \<or> d = 5 \<or> d = 6 \<or> d = 7 \<or> d = 8 \<or> d = 9"
  by arith

lemma digit_char_is_digit: "d < 10 \<Longrightarrow> is_digit (digit_char d)"
  by (drule lt10_cases) (auto simp: is_digit_def digit_char_def)

lemma digit_val_digit_char: "d < 10 \<Longrightarrow> digit_val (digit_char d) = d"
  by (drule lt10_cases) (auto simp: digit_val_def digit_char_def)

lemma is_digit_not_special:
  "is_digit c \<Longrightarrow> c \<noteq> CHR ''.'' \<and> c \<noteq> CHR ''-'' \<and> c \<noteq> CHR ''+'' \<and> c \<noteq> CHR '';'' \<and> c \<noteq> CHR 0x0A \<and> c \<noteq> CHR '',''"
  by (auto simp: is_digit_def)

lemma digits_all_digit: "\<forall>c\<in>set (digits n). is_digit c"
proof (induction n rule: digits.induct)
  case (1 n)
  show ?case
  proof (cases "n < 10")
    case True
    then show ?thesis by (simp add: digits.simps [of n] digit_char_is_digit)
  next
    case False
    with 1 show ?thesis by (simp add: digits.simps [of n] digit_char_is_digit)
  qed
qed

lemma digits_nonempty: "digits n \<noteq> []"
  by (subst digits.simps) simp

lemma digits_val_snoc: "digits_val (xs @ [c]) = 10 * digits_val xs + digit_val c"
  by (simp add: digits_val_def)

lemma digits_val_digits: "digits_val (digits n) = n"
proof (induction n rule: digits.induct)
  case (1 n)
  show ?case
  proof (cases "n < 10")
    case True
    then show ?thesis by (simp add: digits.simps [of n] digits_val_def digit_val_digit_char)
  next
    case False
    with 1 have "digits_val (digits (n div 10)) = n div 10" by simp
    with False show ?thesis
      by (simp add: digits.simps [of n] digits_val_snoc digit_val_digit_char)
  qed
qed

lemma digits_val_append:
  "digits_val (xs @ ys) = digits_val xs * 10 ^ length ys + digits_val ys"
proof (induction ys rule: rev_induct)
  case Nil
  then show ?case by (simp add: digits_val_def)
next
  case (snoc y ys)
  have "digits_val (xs @ ys @ [y]) = 10 * digits_val (xs @ ys) + digit_val y"
    using digits_val_snoc [of "xs @ ys" y] by simp
  also have "\<dots> = 10 * (digits_val xs * 10 ^ length ys + digits_val ys) + digit_val y"
    by (simp add: snoc.IH)
  also have "\<dots> = digits_val xs * 10 ^ length (ys @ [y]) + digits_val (ys @ [y])"
    by (simp add: digits_val_snoc algebra_simps)
  finally show ?case by simp
qed

lemma digits_val_zeros: "digits_val (replicate k (CHR ''0'') @ m) = digits_val m"
proof -
  have z: "digits_val (replicate k (CHR ''0'')) = 0"
  proof (induction k)
    case 0
    then show ?case by (simp add: digits_val_def)
  next
    case (Suc k)
    have "replicate (Suc k) (CHR ''0'') = replicate k (CHR ''0'') @ [CHR ''0'']"
      by (simp add: replicate_append_same)
    then show ?case
      using Suc digits_val_snoc [of "replicate k (CHR ''0'')" "CHR ''0''"]
      by (simp add: digit_val_def)
  qed
  show ?thesis by (simp add: digits_val_append z)
qed

lemma parse_unsigned_point:
  assumes a: "\<forall>c\<in>set a. is_digit c" and b: "\<forall>c\<in>set b. is_digit c" and ne: "a \<noteq> []"
  shows "parse_unsigned (a @ ''.'' @ b) = Some (real (digits_val a) + real (digits_val b) / 10 ^ length b)"
proof -
  have nd: "\<not> is_digit (CHR ''.'')" by (simp add: is_digit_def)
  have t: "takeWhile is_digit (a @ ''.'' @ b) = a"
    using a nd by (simp add: takeWhile_append2)
  have d: "dropWhile is_digit (a @ ''.'' @ b) = ''.'' @ b"
    using a nd by (simp add: dropWhile_append2)
  have tb: "takeWhile is_digit b = b"
    using b by (simp add: takeWhile_eq_all_conv)
  show ?thesis
    unfolding parse_unsigned_def t d using ne by (simp add: Let_def tb)
qed

lemma parse_unsigned_digits:
  assumes m: "\<forall>c\<in>set m. is_digit c" and ne: "m \<noteq> []"
  shows "parse_unsigned m = Some (real (digits_val m))"
proof -
  have t: "takeWhile is_digit m = m"
    using m by (simp add: takeWhile_eq_all_conv)
  have d: "dropWhile is_digit m = []"
    using m by simp
  show ?thesis
    unfolding parse_unsigned_def t d using ne by (simp add: digits_val_def)
qed

lemma parseFloat_unsigned:
  assumes "m \<noteq> []" and "is_digit (hd m)"
  shows "parseFloat m = parse_unsigned m"
proof -
  obtain c r where m: "m = c # r" using assms(1) by (cases m) auto
  with assms(2) have "c \<noteq> CHR ''-'' \<and> c \<noteq> CHR ''+''"
    using is_digit_not_special [of c] by simp
  then show ?thesis by (simp add: parseFloat_def m)
qed

lemma parseFloat_minus: "parseFloat (''-'' @ m) = map_option uminus (parse_unsigned m)"
  by (simp add: parseFloat_def)

lemma toFixed_unfold:
  "toFixed x f = (if x < 0 then ''-'' else []) @ fixed_text (nat \<lfloor>\<bar>x\<bar> * 10 ^ f + 1 / 2\<rfloor>) f"
  by (simp add: toFixed_def fixed_text_def Let_def)

lemma parse_fixed_text:
  "fixed_text n f \<noteq> [] \<and> is_digit (hd (fixed_text n f)) \<and>
   parse_unsigned (fixed_text n f) = Some (real n / 10 ^ f)"
proof (cases "f = 0")
  case True
  have "fixed_text n f = digits n" using True by (simp add: fixed_text_def)
  moreover have "is_digit (hd (digits n))"
    using digits_all_digit [of n] digits_nonempty [of n] by (cases "digits n") auto
  ultimately show ?thesis
    using True digits_nonempty [of n] parse_unsigned_digits [OF digits_all_digit digits_nonempty, of n]
    by (simp add: digits_val_digits)
next
  case False
  define m where "m = (if length (digits n) \<le> f
                        then replicate (f + 1 - length (digits n)) (CHR ''0'') @ digits n
                        else digits n)"
  define k where "k = length m"
  have kdef: "k = (if length (digits n) \<le> f then f + 1 else length (digits n))"
    by (simp add: k_def m_def)
  have kf: "f < k" using kdef by (simp split: if_splits)
  have ft: "fixed_text n f = take (k - f) m @ ''.'' @ drop (k - f) m"
    using False by (simp add: fixed_text_def Let_def m_def kdef)
  have z: "is_digit (CHR ''0'')" by (simp add: is_digit_def)
  have dm: "\<forall>c\<in>set m. is_digit c"
    using digits_all_digit [of n] z by (auto simp: m_def)
  have vm: "digits_val m = n"
    by (simp add: m_def digits_val_zeros digits_val_digits)
  have da: "\<forall>c\<in>set (take (k - f) m). is_digit c"
    using dm by (meson in_set_takeD)
  have db: "\<forall>c\<in>set (drop (k - f) m). is_digit c"
    using dm by (meson in_set_dropD)
  have na: "take (k - f) m \<noteq> []"
    using kf by (auto simp: k_def)
  have lb: "length (drop (k - f) m) = f"
    using kf by (simp add: k_def)
  have "digits_val (take (k - f) m @ drop (k - f) m) =
        digits_val (take (k - f) m) * 10 ^ f + digits_val (drop (k - f) m)"
    using digits_val_append [of "take (k - f) m" "drop (k - f) m"] lb by simp
  then have split: "n = digits_val (take (k - f) m) * 10 ^ f + digits_val (drop (k - f) m)"
    using vm by simp
  have "real n / 10 ^ f =
        real (digits_val (take (k - f) m)) + real (digits_val (drop (k - f) m)) / 10 ^ f"
    by (subst split) (simp add: field_simps)
  then have p: "parse_unsigned (fixed_text n f) = Some (real n / 10 ^ f)"
    using parse_unsigned_point [OF da db na] lb by (simp add: ft)
  have "hd (fixed_text n f) = hd (take (k - f) m)"
    using na by (simp add: ft)
  moreover have "hd (take (k - f) m) \<in> set (take (k - f) m)"
    by (rule hd_in_set [OF na])
  ultimately have "is_digit (hd (fixed_text n f))"
    using da by simp
  then show ?thesis using p na by (simp add: ft)
qed

lemma parseFloat_toFixed:
  "parseFloat (toFixed x f) = Some (rounded x f)"
proof -
  let ?n = "nat \<lfloor>\<bar>x\<bar> * 10 ^ f + 1 / 2\<rfloor>"
  note ft = parse_fixed_text [of ?n f]
  show ?thesis
  proof (cases "x < 0")
    case True
    then show ?thesis
      using ft parseFloat_minus [of "fixed_text ?n f"]
      by (simp add: toFixed_unfold rounded_def)
  next
    case False
    then show ?thesis
      using ft parseFloat_unsigned [of "fixed_text ?n f"]
      by (simp add: toFixed_unfold rounded_def)
  qed
qed

lemma rounded_nonneg: "0 \<le> x \<Longrightarrow> 0 \<le> rounded x f"
  by (simp add: rounded_def)


subsection \<open>Starting and exporting\<close>



text \<open>
  Claim C9. With an empty history the export returns at once: it makes no file, and
  the state after it is the state before it.
\<close>

theorem export_of_empty_history_does_nothing:
  "dataHistory s = [] \<Longrightarrow> downloadCSV s = (s, None) \<and> step Download s = s"
  by (simp add: downloadCSV_def step_def)

theorem export_of_empty_history_does_nothing_witness:
  "dataHistory init = [] \<and> downloadCSV init = (init, None) \<and> step Download init = init"
  using export_of_empty_history_does_nothing [of init] by (simp add: init_def)

subsection \<open>The page cursors\<close>

text \<open>
  Claim C5. A request for a page outside \<open>[1, totalPages]\<close> returns the state as it
  was, for the inline table and for the modal; a request inside the range puts the
  cursor on the requested page, which is within \<open>[1, totalPages]\<close> afterwards.
\<close>

theorem page_change_out_of_range_is_noop:
  "(page < 1 \<or> mainTotalPages s < page \<longrightarrow> handleMainTablePageChange page s = s) \<and>
   (1 \<le> page \<and> page \<le> mainTotalPages s \<longrightarrow>
      mainTableCurrentPage (handleMainTablePageChange page s) = page \<and>
      1 \<le> mainTableCurrentPage (handleMainTablePageChange page s) \<and>
      mainTableCurrentPage (handleMainTablePageChange page s)
        \<le> mainTotalPages (handleMainTablePageChange page s)) \<and>
   (page < 1 \<or> modalTotalPages s < page \<longrightarrow> handleModalPageChange page s = s) \<and>
   (1 \<le> page \<and> page \<le> modalTotalPages s \<longrightarrow>
      modalCurrentPage (handleModalPageChange page s) = page \<and>
      1 \<le> modalCurrentPage (handleModalPageChange page s) \<and>
      modalCurrentPage (handleModalPageChange page s)
        \<le> modalTotalPages (handleModalPageChange page s))"
  by (auto simp: handleMainTablePageChange_def handleModalPageChange_def
      mainTotalPages_def modalTotalPages_def)

theorem page_change_out_of_range_is_noop_witness:
  "mainTotalPages (init\<lparr> dataHistory := replicate 45 (tick_record init 1) \<rparr>) = 3 \<and>
   handleMainTablePageChange 4 (init\<lparr> dataHistory := replicate 45 (tick_record init 1) \<rparr>)
     = init\<lparr> dataHistory := replicate 45 (tick_record init 1) \<rparr> \<and>
   handleModalPageChange 0 (init\<lparr> dataHistory := replicate 45 (tick_record init 1) \<rparr>)
     = init\<lparr> dataHistory := replicate 45 (tick_record init 1) \<rparr> \<and>
   mainTableCurrentPage
     (handleMainTablePageChange 3 (init\<lparr> dataHistory := replicate 45 (tick_record init 1) \<rparr>)) = 3 \<and>
   modalCurrentPage
     (handleModalPageChange 2 (init\<lparr> dataHistory := replicate 45 (tick_record init 1) \<rparr>)) = 2"
  using page_change_out_of_range_is_noop
      [of 4 "init\<lparr> dataHistory := replicate 45 (tick_record init 1) \<rparr>"]
    page_change_out_of_range_is_noop
      [of 0 "init\<lparr> dataHistory := replicate 45 (tick_record init 1) \<rparr>"]
    page_change_out_of_range_is_noop
      [of 3 "init\<lparr> dataHistory := replicate 45 (tick_record init 1) \<rparr>"]
    page_change_out_of_range_is_noop
      [of 2 "init\<lparr> dataHistory := replicate 45 (tick_record init 1) \<rparr>"]
  by (simp add: mainTotalPages_def modalTotalPages_def itemsPerPage_def)

lemma page_changes_keep_history:
  "\<forall>e\<in>set evs. is_main_change e \<or> is_modal_change e \<Longrightarrow> dataHistory (run evs s) = dataHistory s"
proof (induction evs arbitrary: s)
  case Nil
  then show ?case by simp
next
  case (Cons e evs)
  have "dataHistory (step e s) = dataHistory s"
    using Cons.prems
    by (cases e) (auto simp: step_def is_main_change_def is_modal_change_def
        handleMainTablePageChange_def handleModalPageChange_def)
  with Cons show ?case by simp
qed

text \<open>
  Two states with the same history and the same inline cursor end on the same inline
  cursor when one of them sees all the page changes and the other only those of the
  inline table.
\<close>

lemma main_cursor_ignores_modal_changes:
  assumes "\<forall>e\<in>set evs. is_main_change e \<or> is_modal_change e"
    and "dataHistory s = dataHistory s'"
    and "mainTableCurrentPage s = mainTableCurrentPage s'"
  shows "mainTableCurrentPage (run evs s) = mainTableCurrentPage (run (filter is_main_change evs) s')"
  using assms
proof (induction evs arbitrary: s s')
  case Nil
  then show ?case by simp
next
  case (Cons e evs)
  show ?case
  proof (cases e)
    case (MainTablePageChange p)
    have "dataHistory (step e s) = dataHistory (step e s')"
      and "mainTableCurrentPage (step e s) = mainTableCurrentPage (step e s')"
      using Cons.prems(2,3)
      by (simp_all add: MainTablePageChange step_def handleMainTablePageChange_def mainTotalPages_def)
    then show ?thesis
      using Cons.IH [of "step e s" "step e s'"] Cons.prems(1)
      by (simp add: MainTablePageChange is_main_change_def)
  next
    case (ModalPageChange p)
    have "dataHistory (step e s) = dataHistory s'"
      and "mainTableCurrentPage (step e s) = mainTableCurrentPage s'"
      using Cons.prems(2,3)
      by (simp_all add: ModalPageChange step_def handleModalPageChange_def)
    then show ?thesis
      using Cons.IH [of "step e s" s'] Cons.prems(1)
      by (simp add: ModalPageChange is_main_change_def)
  qed (use Cons.prems(1) in \<open>simp_all add: is_main_change_def is_modal_change_def\<close>)
qed

lemma modal_cursor_ignores_main_changes:
  assumes "\<forall>e\<in>set evs. is_main_change e \<or> is_modal_change e"
    and "dataHistory s = dataHistory s'"
    and "modalCurrentPage s = modalCurrentPage s'"
  shows "modalCurrentPage (run evs s) = modalCurrentPage (run (filter is_modal_change evs) s')"
  using assms
proof (induction evs arbitrary: s s')
  case Nil
  then show ?case by simp
next
  case (Cons e evs)
  show ?case
  proof (cases e)
    case (ModalPageChange p)
    have "dataHistory (step e s) = dataHistory (step e s')"
      and "modalCurrentPage (step e s) = modalCurrentPage (step e s')"
      using Cons.prems(2,3)
      by (simp_all add: ModalPageChange step_def handleModalPageChange_def modalTotalPages_def)
    then show ?thesis
      using Cons.IH [of "step e s" "step e s'"] Cons.prems(1)
      by (simp add: ModalPageChange is_modal_change_def)
  next
    case (MainTablePageChange p)
    have "dataHistory (step e s) = dataHistory s'"
      and "modalCurrentPage (step e s) = modalCurrentPage s'"
      using Cons.prems(2,3)
      by (simp_all add: MainTablePageChange step_def handleMainTablePageChange_def)
    then show ?thesis
      using Cons.IH [of "step e s" s'] Cons.prems(1)
      by (simp add: MainTablePageChange is_modal_change_def)
  qed (use Cons.prems(1) in \<open>simp_all add: is_main_change_def is_modal_change_def\<close>)
qed

text \<open>
  Claim C6. Along any sequence of page changes of the two tables the history stays as
  it is, the cursor and the page of the inline table are what the inline changes alone
  make them, and the cursor and the page of the modal are what the modal changes alone
  make them. In particular one change of one table leaves the cursor and the page of
  the other as they were.
\<close>

theorem cursors_are_independent:
  assumes "\<forall>e\<in>set evs. is_main_change e \<or> is_modal_change e"
  shows "dataHistory (run evs s) = dataHistory s \<and>
         mainTableCurrentPage (run evs s) = mainTableCurrentPage (run (filter is_main_change evs) s) \<and>
         mainCurrentData (run evs s) = mainCurrentData (run (filter is_main_change evs) s) \<and>
         modalCurrentPage (run evs s) = modalCurrentPage (run (filter is_modal_change evs) s) \<and>
         modalCurrentData (run evs s) = modalCurrentData (run (filter is_modal_change evs) s) \<and>
         (\<forall>p. mainTableCurrentPage (handleModalPageChange p s) = mainTableCurrentPage s \<and>
              mainCurrentData (handleModalPageChange p s) = mainCurrentData s \<and>
              modalCurrentPage (handleMainTablePageChange p s) = modalCurrentPage s \<and>
              modalCurrentData (handleMainTablePageChange p s) = modalCurrentData s)"
proof -
  have f1: "\<forall>e\<in>set (filter is_main_change evs). is_main_change e \<or> is_modal_change e"
    and f2: "\<forall>e\<in>set (filter is_modal_change evs). is_main_change e \<or> is_modal_change e"
    by simp_all
  have h: "dataHistory (run evs s) = dataHistory s"
    and h1: "dataHistory (run (filter is_main_change evs) s) = dataHistory s"
    and h2: "dataHistory (run (filter is_modal_change evs) s) = dataHistory s"
    using page_changes_keep_history [OF assms] page_changes_keep_history [OF f1]
      page_changes_keep_history [OF f2] by simp_all
  have m: "mainTableCurrentPage (run evs s) = mainTableCurrentPage (run (filter is_main_change evs) s)"
    using main_cursor_ignores_modal_changes [OF assms, of s s] by simp
  have d: "modalCurrentPage (run evs s) = modalCurrentPage (run (filter is_modal_change evs) s)"
    using modal_cursor_ignores_main_changes [OF assms, of s s] by simp
  have one: "\<forall>p. mainTableCurrentPage (handleModalPageChange p s) = mainTableCurrentPage s \<and>
              mainCurrentData (handleModalPageChange p s) = mainCurrentData s \<and>
              modalCurrentPage (handleMainTablePageChange p s) = modalCurrentPage s \<and>
              modalCurrentData (handleMainTablePageChange p s) = modalCurrentData s"
    by (simp add: handleModalPageChange_def handleMainTablePageChange_def mainCurrentData_def
        modalCurrentData_def mainStartIndex_def mainEndIndex_def modalStartIndex_def modalEndIndex_def)
  have mcd: "mainCurrentData (run evs s) = mainCurrentData (run (filter is_main_change evs) s)"
    using h h1 m by (simp add: mainCurrentData_def mainStartIndex_def mainEndIndex_def)
  have dcd: "modalCurrentData (run evs s) = modalCurrentData (run (filter is_modal_change evs) s)"
    using h h2 d by (simp add: modalCurrentData_def modalStartIndex_def modalEndIndex_def)
  from h m mcd d dcd one show ?thesis
    by blast
qed

theorem cursors_are_independent_witness:
  "mainTableCurrentPage
     (run [ModalPageChange 2, MainTablePageChange 3, ModalPageChange 1]
        (init\<lparr> dataHistory := replicate 45 (tick_record init 1) \<rparr>))
   = mainTableCurrentPage
       (run [MainTablePageChange 3] (init\<lparr> dataHistory := replicate 45 (tick_record init 1) \<rparr>)) \<and>
   modalCurrentPage
     (run [ModalPageChange 2, MainTablePageChange 3, ModalPageChange 1]
        (init\<lparr> dataHistory := replicate 45 (tick_record init 1) \<rparr>))
   = modalCurrentPage
       (run [ModalPageChange 2, ModalPageChange 1]
          (init\<lparr> dataHistory := replicate 45 (tick_record init 1) \<rparr>))"
  using cursors_are_independent
      [of "[ModalPageChange 2, MainTablePageChange 3, ModalPageChange 1]"
          "init\<lparr> dataHistory := replicate 45 (tick_record init 1) \<rparr>"]
  by (simp add: is_main_change_def is_modal_change_def)

subsection \<open>Arithmetic of pages and slices\<close>

lemma ceil_div_20: "\<lceil>real L / real_of_int itemsPerPage\<rceil> = int ((L + 19) div 20)"
proof -
  have "\<lceil>real L / 20\<rceil> = int ((L + 19) div 20)"
  proof (rule ceiling_unique)
    have a: "20 * ((L + 19) div 20) \<ge> L" by presburger
    have b: "20 * ((L + 19) div 20) < L + 20" by presburger
    from a have "real L \<le> real (20 * ((L + 19) div 20))" by (rule of_nat_mono)
    then show "real L / 20 \<le> of_int (int ((L + 19) div 20))" by simp
    from b have "real (20 * ((L + 19) div 20)) < real (L + 20)" by (simp only: of_nat_less_iff)
    then show "of_int (int ((L + 19) div 20)) - 1 < real L / 20" by simp
  qed
  then show ?thesis by (simp add: itemsPerPage_def)
qed

lemma slice_nonneg:
  "slice h (int a) (Some (int a + int n)) = take n (drop a h)"
proof (cases "a \<le> length h")
  case True
  show ?thesis
  proof (cases "a + n \<le> length h")
    case True
    then have "nat (min (int a + int n) (int (length h)) - min (int a) (int (length h))) = n"
      by (simp add: min_def)
    moreover have "nat (min (int a) (int (length h))) = a"
      using True by (simp add: min_def)
    ultimately show ?thesis
      by (simp add: slice_def Let_def)
  next
    case False
    then have "nat (min (int a + int n) (int (length h)) - min (int a) (int (length h))) = length h - a"
      using True by (simp add: min_def nat_diff_distrib)
    moreover have "nat (min (int a) (int (length h))) = a"
      using True by (simp add: min_def)
    ultimately show ?thesis
      using False by (simp add: slice_def Let_def)
  qed
next
  case False
  then have "nat (min (int a) (int (length h))) = length h"
    by (simp add: min_def)
  then show ?thesis
    using False by (simp add: slice_def Let_def)
qed

lemma slice_page:
  assumes "1 \<le> c"
  shows "slice h ((c - 1) * itemsPerPage) (Some ((c - 1) * itemsPerPage + itemsPerPage))
         = take 20 (drop (20 * nat (c - 1)) h)"
proof -
  have ip: "itemsPerPage = int 20" by (simp add: itemsPerPage_def)
  have e1: "(c - 1) * int 20 = int (20 * nat (c - 1))"
    using assms by simp
  show ?thesis
    by (simp only: ip e1 slice_nonneg)
qed

lemma small_div: "(m::nat) < 20 \<Longrightarrow> (m + 19) div 20 = (if m = 0 then 0 else 1)"
  by (auto intro!: div_nat_eqI)

lemma pages_count: "((n::nat) + 19) div 20 = (if n mod 20 = 0 then n div 20 else n div 20 + 1)"
proof -
  have "(n + 19) div 20 = n div 20 + (n mod 20 + 19) div 20"
    by (simp add: div_add1_eq [of n 19 20])
  moreover have "(n mod 20 + 19) div 20 = (if n mod 20 = 0 then 0 else 1)"
  proof -
    have "n mod 20 < 20" by simp
    then show ?thesis by (rule small_div)
  qed
  ultimately show ?thesis by simp
qed

lemma last_page_length:
  assumes "h \<noteq> []"
  shows "length (take 20 (drop (20 * nat (int ((length h + 19) div 20) - 1)) h))
         = (if length h mod 20 = 0 then 20 else length h mod 20)"
proof -
  define n where "n = length h"
  define q r where "q = n div 20" and "r = n mod 20"
  have n: "n = 20 * q + r" and r: "r < 20" by (simp_all add: q_def r_def)
  have pos: "0 < n" using assms by (simp add: n_def)
  have pc: "(n + 19) div 20 = (if r = 0 then q else q + 1)"
    using pages_count [of n] by (simp add: q_def r_def)
  have nn: "nat (int ((n + 19) div 20) - 1) = (n + 19) div 20 - 1"
    by (simp add: nat_diff_distrib)
  have "min (n - 20 * ((n + 19) div 20 - 1)) 20 = (if r = 0 then 20 else r)"
  proof (cases "r = 0")
    case True
    then have "0 < q" using pos n by simp
    then have "n - 20 * (q - 1) = 20" using n True by (cases q) simp_all
    then show ?thesis using True by (simp add: pc)
  next
    case False
    have "n - 20 * q = r" using n by simp
    then show ?thesis using False r by (simp add: pc)
  qed
  then show ?thesis
    by (simp add: n_def [symmetric] nn r_def)
qed

subsection \<open>What one tick changes\<close>

lemma tick_idle: "intervalRef s = None \<Longrightarrow> tick s = s"
  by (simp add: tick_def)

lemma tick_cursors:
  "mainTableCurrentPage (tick s) = mainTableCurrentPage s \<and>
   modalCurrentPage (tick s) = modalCurrentPage s"
  by (simp add: tick_def Let_def bounceEffect_def stopSimulation_def split: option.splits)

lemma tick_appends_one_row:
  assumes "intervalRef s = Some c"
  shows "\<exists>r x. dataHistory (tick s) = dataHistory s @ [r] \<and> row_height r = Some x \<and> 0 \<le> x"
  using assms
  by (simp add: tick_def Let_def bounceEffect_def stopSimulation_def parseFloat_toFixed rounded_nonneg)

lemma tick_history_grows: "length (dataHistory s) \<le> length (dataHistory (tick s))"
proof (cases "intervalRef s")
  case None
  then show ?thesis by (simp add: tick_idle)
next
  case (Some c)
  then show ?thesis using tick_appends_one_row [OF Some] by auto
qed

subsection \<open>Pages of the history\<close>

lemma pages_mono: "L \<le> L' \<Longrightarrow> \<lceil>real L / real_of_int itemsPerPage\<rceil> \<le> \<lceil>real L' / real_of_int itemsPerPage\<rceil>"
  by (simp add: ceil_div_20 div_le_mono)

lemma step_keeps_cursors_in_range:
  assumes "cursors_in_range s"
  shows "cursors_in_range (step e s)"
proof (cases e)
  case Tick
  have "mainTotalPages s \<le> mainTotalPages (tick s)" and "modalTotalPages s \<le> modalTotalPages (tick s)"
    using pages_mono [OF tick_history_grows [of s]]
    by (simp_all add: mainTotalPages_def modalTotalPages_def)
  then show ?thesis
    using assms tick_cursors [of s] by (auto simp: Tick step_def cursors_in_range_def max_def split: if_splits)
next
  case (BounceTick i)
  then show ?thesis
    using assms
    by (simp add: step_def cursors_in_range_def bounceTick_def Let_def mainTotalPages_def modalTotalPages_def)
qed (use assms in \<open>auto simp: step_def cursors_in_range_def startSimulation_def Let_def
      stopSimulation_def restartSimulation_def handleMainTablePageChange_def
      handleModalPageChange_def downloadCSV_def mainTotalPages_def modalTotalPages_def\<close>)

lemma run_keeps_cursors_in_range: "cursors_in_range s \<Longrightarrow> cursors_in_range (run evs s)"
  by (induction evs arbitrary: s) (simp_all add: step_keeps_cursors_in_range)

lemma reachable_cursors_in_range: "cursors_in_range (run evs init)"
  by (rule run_keeps_cursors_in_range) (simp add: cursors_in_range_def init_def mainTotalPages_def modalTotalPages_def)

text \<open>
  Claim C3, as amended. The number of pages is the length of the history divided by 20
  and rounded up. For a cursor on page 1 or later, the page shown is the run of 20 rows
  of the history that starts at the index \<open>20 * (cursor - 1)\<close>, cut at the end of the
  history; page 1 starts at the index 0. When the history is not empty, the page of
  the last cursor value, \<open>totalPages\<close>, has \<open>L mod 20\<close> rows, or 20 when 20 divides
  the length \<open>L\<close>. When the history is empty there is no page and nothing is shown.
  By \<open>reachable_cursors_in_range\<close> the cursors of the component are never below 1.
\<close>

theorem pages_are_contiguous_slices:
  assumes "1 \<le> mainTableCurrentPage s" and "1 \<le> modalCurrentPage s"
  shows "mainTotalPages s = int ((length (dataHistory s) + 19) div 20) \<and>
         modalTotalPages s = int ((length (dataHistory s) + 19) div 20) \<and>
         mainCurrentData s = take 20 (drop (20 * nat (mainTableCurrentPage s - 1)) (dataHistory s)) \<and>
         modalCurrentData s = take 20 (drop (20 * nat (modalCurrentPage s - 1)) (dataHistory s)) \<and>
         (\<forall>i < length (mainCurrentData s).
            mainCurrentData s ! i = dataHistory s ! (20 * nat (mainTableCurrentPage s - 1) + i)) \<and>
         (\<forall>i < length (modalCurrentData s).
            modalCurrentData s ! i = dataHistory s ! (20 * nat (modalCurrentPage s - 1) + i)) \<and>
         length (mainCurrentData s)
           = min 20 (length (dataHistory s) - 20 * nat (mainTableCurrentPage s - 1)) \<and>
         length (modalCurrentData s)
           = min 20 (length (dataHistory s) - 20 * nat (modalCurrentPage s - 1)) \<and>
         (mainTableCurrentPage s = 1 \<longrightarrow> mainCurrentData s = take 20 (dataHistory s)) \<and>
         (modalCurrentPage s = 1 \<longrightarrow> modalCurrentData s = take 20 (dataHistory s)) \<and>
         (dataHistory s \<noteq> [] \<and> mainTableCurrentPage s = mainTotalPages s \<longrightarrow>
            length (mainCurrentData s)
              = (if length (dataHistory s) mod 20 = 0 then 20 else length (dataHistory s) mod 20)) \<and>
         (dataHistory s \<noteq> [] \<and> modalCurrentPage s = modalTotalPages s \<longrightarrow>
            length (modalCurrentData s)
              = (if length (dataHistory s) mod 20 = 0 then 20 else length (dataHistory s) mod 20)) \<and>
         (dataHistory s = [] \<longrightarrow>
            mainTotalPages s = 0 \<and> modalTotalPages s = 0 \<and>
            mainCurrentData s = [] \<and> modalCurrentData s = [])"
proof -
  have tp: "mainTotalPages s = int ((length (dataHistory s) + 19) div 20)"
    and tp': "modalTotalPages s = int ((length (dataHistory s) + 19) div 20)"
    by (simp_all add: mainTotalPages_def modalTotalPages_def ceil_div_20)
  have m: "mainCurrentData s = take 20 (drop (20 * nat (mainTableCurrentPage s - 1)) (dataHistory s))"
    using slice_page [OF assms(1)]
    by (simp add: mainCurrentData_def mainStartIndex_def mainEndIndex_def)
  have d: "modalCurrentData s = take 20 (drop (20 * nat (modalCurrentPage s - 1)) (dataHistory s))"
    using slice_page [OF assms(2)]
    by (simp add: modalCurrentData_def modalStartIndex_def modalEndIndex_def)
  have mi: "\<forall>i < length (mainCurrentData s).
            mainCurrentData s ! i = dataHistory s ! (20 * nat (mainTableCurrentPage s - 1) + i)"
    by (auto simp: m nth_drop)
  have di: "\<forall>i < length (modalCurrentData s).
            modalCurrentData s ! i = dataHistory s ! (20 * nat (modalCurrentPage s - 1) + i)"
    by (auto simp: d nth_drop)
  have ml: "length (mainCurrentData s)
           = min 20 (length (dataHistory s) - 20 * nat (mainTableCurrentPage s - 1))"
    by (simp add: m min.commute)
  have dl: "length (modalCurrentData s)
           = min 20 (length (dataHistory s) - 20 * nat (modalCurrentPage s - 1))"
    by (simp add: d min.commute)
  have m1: "mainTableCurrentPage s = 1 \<longrightarrow> mainCurrentData s = take 20 (dataHistory s)"
    by (simp add: m)
  have d1: "modalCurrentPage s = 1 \<longrightarrow> modalCurrentData s = take 20 (dataHistory s)"
    by (simp add: d)
  have mlast: "dataHistory s \<noteq> [] \<and> mainTableCurrentPage s = mainTotalPages s \<longrightarrow>
            length (mainCurrentData s)
              = (if length (dataHistory s) mod 20 = 0 then 20 else length (dataHistory s) mod 20)"
  proof (intro impI, elim conjE)
    assume ne: "dataHistory s \<noteq> []" and eq: "mainTableCurrentPage s = mainTotalPages s"
    have "mainCurrentData s
          = take 20 (drop (20 * nat (int ((length (dataHistory s) + 19) div 20) - 1)) (dataHistory s))"
      using m eq tp by simp
    then show "length (mainCurrentData s)
              = (if length (dataHistory s) mod 20 = 0 then 20 else length (dataHistory s) mod 20)"
      using last_page_length [OF ne] by simp
  qed
  have dlast: "dataHistory s \<noteq> [] \<and> modalCurrentPage s = modalTotalPages s \<longrightarrow>
            length (modalCurrentData s)
              = (if length (dataHistory s) mod 20 = 0 then 20 else length (dataHistory s) mod 20)"
  proof (intro impI, elim conjE)
    assume ne: "dataHistory s \<noteq> []" and eq: "modalCurrentPage s = modalTotalPages s"
    have "modalCurrentData s
          = take 20 (drop (20 * nat (int ((length (dataHistory s) + 19) div 20) - 1)) (dataHistory s))"
      using d eq tp' by simp
    then show "length (modalCurrentData s)
              = (if length (dataHistory s) mod 20 = 0 then 20 else length (dataHistory s) mod 20)"
      using last_page_length [OF ne] by simp
  qed
  have e: "dataHistory s = [] \<longrightarrow>
            mainTotalPages s = 0 \<and> modalTotalPages s = 0 \<and>
            mainCurrentData s = [] \<and> modalCurrentData s = []"
    by (simp add: m d tp tp')
  from tp tp' m d mi di ml dl m1 d1 mlast dlast e show ?thesis
    by blast
qed

text \<open>
  Claim C3 as it is written fails for the empty history, the state the component
  starts in: 20 divides the length 0, so the last page should have 20 rows, but there
  are 0 pages and the table shows no row, on the cursor 1 as on a cursor 0.
\<close>

theorem last_page_formula_fails_for_empty_history:
  "length (dataHistory init) mod 20 = 0 \<and>
   mainTotalPages init = 0 \<and>
   mainTableCurrentPage init = 1 \<and>
   length (mainCurrentData init) = 0 \<and>
   length (mainCurrentData (init\<lparr> mainTableCurrentPage := mainTotalPages init \<rparr>)) = 0 \<and>
   length (mainCurrentData init)
     \<noteq> (if length (dataHistory init) mod 20 = 0 then 20 else length (dataHistory init) mod 20)"
  by (simp add: init_def mainTotalPages_def mainCurrentData_def mainStartIndex_def mainEndIndex_def
      itemsPerPage_def slice_def)

theorem pages_are_contiguous_slices_witness:
  "mainTotalPages
     (init\<lparr> dataHistory := map (tick_record init) [1 ..< 46], mainTableCurrentPage := 3 \<rparr>) = 3 \<and>
   mainCurrentData
     (init\<lparr> dataHistory := map (tick_record init) [1 ..< 46], mainTableCurrentPage := 3 \<rparr>)
     = map (tick_record init) [41 ..< 46] \<and>
   length (mainCurrentData
     (init\<lparr> dataHistory := map (tick_record init) [1 ..< 46], mainTableCurrentPage := 3 \<rparr>)) = 5 \<and>
   modalCurrentData
     (init\<lparr> dataHistory := map (tick_record init) [1 ..< 46], mainTableCurrentPage := 3 \<rparr>)
     = map (tick_record init) [1 ..< 21]"
  using pages_are_contiguous_slices
    [of "init\<lparr> dataHistory := map (tick_record init) [1 ..< 46], mainTableCurrentPage := 3 \<rparr>"]
  by (simp add: init_def take_map drop_map)

subsection \<open>A simulation from its start\<close>

lemma slice_last: "0 < n \<Longrightarrow> slice xs (- int n) None = drop (length xs - n) xs"
proof -
  assume "0 < n"
  moreover have "nat (max (int (length xs) - int n) 0) = length xs - n"
    by (simp add: max_def nat_diff_distrib)
  ultimately show ?thesis by (simp add: slice_def Let_def)
qed

text \<open>
  What a tick that runs computes, from what its callback holds: the expressions are
  those of the source.
\<close>

lemma tick_running:
  assumes "intervalRef st = Some c"
  defines "t \<equiv> cl_time c + 0.1"
  defines "d \<equiv> cl_initialVelocity c * t + 0.5 * cl_gravity c * t * t"
  defines "h \<equiv> max 0 (cl_initialHeight c - d)"
  shows "time (simulationState (tick st)) = t"
    and "currentVelocity (simulationState (tick st)) = cl_initialVelocity c + cl_gravity c * t"
    and "displacement (simulationState (tick st)) = d"
    and "currentHeight (simulationState (tick st)) = h"
    and "isRunning (simulationState (tick st)) = (isRunning (simulationState st) \<and> 0.001 < h)"
    and "intervalRef (tick st) = (if h \<le> 0.001 then None else Some (c\<lparr> cl_time := t \<rparr>))"
    and "dataHistory (tick st) = dataHistory st @
           [\<lparr> row_time = Some (rounded t 2), row_height = Some (rounded h 2),
              row_velocity = Some (rounded (cl_initialVelocity c + cl_gravity c * t) 2),
              row_acceleration = Some (rounded (cl_gravity c) 2),
              row_displacement = Some (rounded d 2),
              row_mass = Some (rounded (cl_mass c) 1) \<rparr>]"
    and "trail (tick st) = drop (length (trail st) - 29) (trail st @ [next_position c])"
    and "mainTableCurrentPage (tick st) = mainTableCurrentPage st"
    and "modalCurrentPage (tick st) = modalCurrentPage st"
proof -
  define s1 where "s1 =
    st\<lparr> intervalRef := Some (c\<lparr> cl_time := t \<rparr>),
        simulationState := (simulationState st)
          \<lparr> time := t, currentHeight := h,
            currentVelocity := cl_initialVelocity c + cl_gravity c * t, displacement := d,
            ballY := min (cl_initialBallY c + d * SCALE) (CANVAS_HEIGHT - cl_ballRadius c - 4) \<rparr>,
        trail := (if length (trail st @ [min (cl_initialBallY c + d * SCALE) (CANVAS_HEIGHT - cl_ballRadius c - 4)]) > 30
                  then slice (trail st @ [min (cl_initialBallY c + d * SCALE) (CANVAS_HEIGHT - cl_ballRadius c - 4)]) (- 30) None
                  else trail st @ [min (cl_initialBallY c + d * SCALE) (CANVAS_HEIGHT - cl_ballRadius c - 4)]),
        dataHistory := dataHistory st @
          [\<lparr> row_time = parseFloat (toFixed t 2),
             row_height = parseFloat (toFixed h 2),
             row_velocity = parseFloat (toFixed (cl_initialVelocity c + cl_gravity c * t) 2),
             row_acceleration = parseFloat (toFixed (cl_gravity c) 2),
             row_displacement = parseFloat (toFixed d 2),
             row_mass = parseFloat (toFixed (cl_mass c) 1) \<rparr>] \<rparr>"
  have eq: "tick st = (if h \<le> 0.001 then bounceEffect (cl_ballRadius c) (stopSimulation s1) else s1)"
    unfolding tick_def Let_def s1_def h_def d_def t_def
    by (simp only: assms(1) option.case)
  have np: "min (cl_initialBallY c + d * SCALE) (CANVAS_HEIGHT - cl_ballRadius c - 4) = next_position c"
    unfolding next_position_def Let_def d_def t_def by (rule refl)
  have tr: "(if 30 < length (trail st @ [next_position c])
             then slice (trail st @ [next_position c]) (- 30) None
             else trail st @ [next_position c])
            = drop (length (trail st) - 29) (trail st @ [next_position c])"
    using slice_last [of 30 "trail st @ [next_position c]"] by (simp add: Suc_diff_le)
  have s1_trail: "trail s1 = drop (length (trail st) - 29) (trail st @ [next_position c])"
    unfolding s1_def np using tr by simp
  note sel = eq bounceEffect_def stopSimulation_def
  show "time (simulationState (tick st)) = t"
    by (simp add: sel s1_def)
  show "currentVelocity (simulationState (tick st)) = cl_initialVelocity c + cl_gravity c * t"
    by (simp add: sel s1_def)
  show "displacement (simulationState (tick st)) = d"
    by (simp add: sel s1_def)
  show "currentHeight (simulationState (tick st)) = h"
    by (simp add: sel s1_def)
  show "isRunning (simulationState (tick st)) = (isRunning (simulationState st) \<and> 0.001 < h)"
    by (cases "h \<le> 0.001") (simp_all add: sel s1_def)
  show "intervalRef (tick st) = (if h \<le> 0.001 then None else Some (c\<lparr> cl_time := t \<rparr>))"
    by (simp add: sel s1_def)
  show "dataHistory (tick st) = dataHistory st @
           [\<lparr> row_time = Some (rounded t 2), row_height = Some (rounded h 2),
              row_velocity = Some (rounded (cl_initialVelocity c + cl_gravity c * t) 2),
              row_acceleration = Some (rounded (cl_gravity c) 2),
              row_displacement = Some (rounded d 2),
              row_mass = Some (rounded (cl_mass c) 1) \<rparr>]"
    by (simp add: sel s1_def parseFloat_toFixed)
  show "trail (tick st) = drop (length (trail st) - 29) (trail st @ [next_position c])"
    using s1_trail by (simp add: sel)
  show "mainTableCurrentPage (tick st) = mainTableCurrentPage st"
    by (simp add: sel s1_def)
  show "modalCurrentPage (tick st) = modalCurrentPage st"
    by (simp add: sel s1_def)
qed

lemma last30_step:
  "drop (length (drop (length ps - 30) ps) - 29) (drop (length ps - 30) ps @ [p])
   = drop (length (ps @ [p]) - 30) (ps @ [p])"
proof (cases "length ps < 30")
  case True
  then show ?thesis by simp
next
  case False
  then have "length ps - (length ps - 30) - 29 = 1" and "Suc (length ps) - 30 = Suc (length ps - 30)"
    by simp_all
  then show ?thesis using False by simp
qed

lemma tick_record_next:
  fixes s n
  defines "c \<equiv> closure_after s n"
  defines "t \<equiv> cl_time c + 0.1"
  defines "d \<equiv> cl_initialVelocity c * t + 0.5 * cl_gravity c * t * t"
  defines "h \<equiv> max 0 (cl_initialHeight c - d)"
  shows "t = real (Suc n) / 10"
    and "d = displacement_at (initialVelocity s) (gravity s) (real (Suc n) / 10)"
    and "h = height_at (initialHeight s) (initialVelocity s) (gravity s) (real (Suc n) / 10)"
    and "cl_initialVelocity c + cl_gravity c * t
         = velocity_at (initialVelocity s) (gravity s) (real (Suc n) / 10)"
    and "\<lparr> row_time = Some (rounded t 2), row_height = Some (rounded h 2),
           row_velocity = Some (rounded (cl_initialVelocity c + cl_gravity c * t) 2),
           row_acceleration = Some (rounded (cl_gravity c) 2),
           row_displacement = Some (rounded d 2),
           row_mass = Some (rounded (cl_mass c) 1) \<rparr> = tick_record s (Suc n)"
proof -
  show t: "t = real (Suc n) / 10"
    by (simp add: t_def c_def closure_after_def)
  show d: "d = displacement_at (initialVelocity s) (gravity s) (real (Suc n) / 10)"
    unfolding d_def t by (simp add: c_def closure_after_def displacement_at_def power2_eq_square)
  show h: "h = height_at (initialHeight s) (initialVelocity s) (gravity s) (real (Suc n) / 10)"
    unfolding h_def d by (simp add: c_def closure_after_def height_at_def)
  show v: "cl_initialVelocity c + cl_gravity c * t
         = velocity_at (initialVelocity s) (gravity s) (real (Suc n) / 10)"
    unfolding t by (simp add: c_def closure_after_def velocity_at_def)
  show "\<lparr> row_time = Some (rounded t 2), row_height = Some (rounded h 2),
           row_velocity = Some (rounded (cl_initialVelocity c + cl_gravity c * t) 2),
           row_acceleration = Some (rounded (cl_gravity c) 2),
           row_displacement = Some (rounded d 2),
           row_mass = Some (rounded (cl_mass c) 1) \<rparr> = tick_record s (Suc n)"
    unfolding v h d unfolding t
    by (simp add: tick_record_def Let_def c_def closure_after_def)
qed

lemma closure_after_next:
  "next_position (closure_after s n) = tick_position s (Suc n)"
  unfolding next_position_def Let_def tick_position_def
  by (simp only: tick_record_next(2) [of s n]) (simp add: closure_after_def)

text \<open>
  The state after \<open>n\<close> ticks of a simulation started in a state \<open>s\<close> that was not
  running, when the simulation was still running before each of these ticks.
\<close>

lemma ticks_after_start:
  assumes nr: "\<not> isRunning (simulationState s)"
    and fired: "\<forall>j<n. isRunning (simulationState (ticks j (startSimulation s)))"
  shows "intervalRef (ticks n (startSimulation s))
           = (if isRunning (simulationState (ticks n (startSimulation s)))
              then Some (closure_after s n) else None) \<and>
         dataHistory (ticks n (startSimulation s)) = map (tick_record s) [1 ..< Suc n] \<and>
         trail (ticks n (startSimulation s)) = drop (n - 30) (map (tick_position s) [1 ..< Suc n]) \<and>
         time (simulationState (ticks n (startSimulation s))) = real n / 10 \<and>
         currentVelocity (simulationState (ticks n (startSimulation s)))
           = velocity_at (initialVelocity s) (gravity s) (real n / 10) \<and>
         displacement (simulationState (ticks n (startSimulation s)))
           = displacement_at (initialVelocity s) (gravity s) (real n / 10) \<and>
         currentHeight (simulationState (ticks n (startSimulation s)))
           = (if n = 0 then initialHeight s
              else height_at (initialHeight s) (initialVelocity s) (gravity s) (real n / 10)) \<and>
         isRunning (simulationState (ticks n (startSimulation s)))
           = (n = 0 \<or> 0.001 < height_at (initialHeight s) (initialVelocity s) (gravity s) (real n / 10)) \<and>
         mainTableCurrentPage (ticks n (startSimulation s)) = 1 \<and>
         modalCurrentPage (ticks n (startSimulation s)) = 1"
  using fired
proof (induction n)
  case 0
  show ?case
    using nr
    by (simp add: startSimulation_def Let_def closure_after_def velocity_at_def displacement_at_def)
next
  case (Suc n)
  define u where "u = ticks n (startSimulation s)"
  have r: "isRunning (simulationState u)"
    using Suc.prems by (simp add: u_def)
  have "\<forall>j<n. isRunning (simulationState (ticks j (startSimulation s)))"
    using Suc.prems by simp
  from Suc.IH [OF this] r
  have iv: "intervalRef u = Some (closure_after s n)"
    and hist: "dataHistory u = map (tick_record s) [1 ..< Suc n]"
    and tr: "trail u = drop (n - 30) (map (tick_position s) [1 ..< Suc n])"
    and m1: "mainTableCurrentPage u = 1" and m2: "modalCurrentPage u = 1"
    by (simp_all add: u_def)
  note tk = tick_running [OF iv]
  note nx = tick_record_next [of s n]
  have tu: "ticks (Suc n) (startSimulation s) = tick u"
    by (simp add: u_def)
  define H where "H = max 0 (cl_initialHeight (closure_after s n)
      - (cl_initialVelocity (closure_after s n) * (cl_time (closure_after s n) + 0.1)
         + 0.5 * cl_gravity (closure_after s n) * (cl_time (closure_after s n) + 0.1)
           * (cl_time (closure_after s n) + 0.1)))"
  have Hh: "H = height_at (initialHeight s) (initialVelocity s) (gravity s) (real (Suc n) / 10)"
    unfolding H_def by (rule nx(3))
  have tk5: "isRunning (simulationState (tick u)) = (isRunning (simulationState u) \<and> 0.001 < H)"
    unfolding H_def by (rule tk(5))
  have ce: "(closure_after s n)\<lparr> cl_time := cl_time (closure_after s n) + 0.1 \<rparr>
            = closure_after s (Suc n)"
    by (simp add: closure_after_def)
  have tk6: "intervalRef (tick u) = (if H \<le> 0.001 then None else Some (closure_after s (Suc n)))"
    unfolding H_def ce [symmetric] by (rule tk(6))
  have a: "intervalRef (tick u) = (if isRunning (simulationState (tick u))
              then Some (closure_after s (Suc n)) else None)"
    using r tk5 tk6 by (cases "H \<le> 0.001") simp_all
  have b: "dataHistory (tick u) = map (tick_record s) [1 ..< Suc (Suc n)]"
    by (simp only: tk(7) nx(5) hist) simp
  have c: "trail (tick u) = drop (Suc n - 30) (map (tick_position s) [1 ..< Suc (Suc n)])"
  proof -
    define ps where "ps = map (tick_position s) [1 ..< Suc n]"
    have l: "length ps = n" by (simp add: ps_def)
    have "map (tick_position s) [1 ..< Suc (Suc n)] = ps @ [tick_position s (Suc n)]"
      by (simp add: ps_def)
    moreover have "trail (tick u) = drop (length (drop (length ps - 30) ps) - 29)
                      (drop (length ps - 30) ps @ [tick_position s (Suc n)])"
      by (simp only: tk(8) tr closure_after_next ps_def [symmetric] l)
    ultimately show ?thesis
      using last30_step [of ps "tick_position s (Suc n)"] by (simp add: l)
  qed
  have d: "time (simulationState (tick u)) = real (Suc n) / 10"
    by (simp only: tk(1) nx(1))
  have e: "currentVelocity (simulationState (tick u))
           = velocity_at (initialVelocity s) (gravity s) (real (Suc n) / 10)"
    by (simp only: tk(2) nx(4))
  have f: "displacement (simulationState (tick u))
           = displacement_at (initialVelocity s) (gravity s) (real (Suc n) / 10)"
    by (simp only: tk(3) nx(2))
  have g: "currentHeight (simulationState (tick u))
           = height_at (initialHeight s) (initialVelocity s) (gravity s) (real (Suc n) / 10)"
    by (simp only: tk(4) nx(3))
  have h: "isRunning (simulationState (tick u))
           = (0.001 < height_at (initialHeight s) (initialVelocity s) (gravity s) (real (Suc n) / 10))"
    using r tk5 by (simp add: Hh)
  have i: "mainTableCurrentPage (tick u) = 1" and j: "modalCurrentPage (tick u) = 1"
    by (simp_all only: tk(9,10) m1 m2)
  show ?case
    unfolding tu using a b c d e f g h i j by (simp del: of_nat_Suc)
qed

subsection \<open>The kinematics of the tick driver\<close>

text \<open>The driver runs as long as the heights of the earlier ticks are above the threshold.\<close>

lemma running_while_above_ground:
  assumes nr: "\<not> isRunning (simulationState s)"
    and above: "\<forall>j. 0 < j \<and> j < n \<longrightarrow>
      0.001 < height_at (initialHeight s) (initialVelocity s) (gravity s) (real j / 10)"
  shows "\<forall>j<n. isRunning (simulationState (ticks j (startSimulation s)))"
proof (intro allI impI)
  fix j
  assume "j < n"
  then show "isRunning (simulationState (ticks j (startSimulation s)))"
  proof (induction j rule: less_induct)
    case (less j)
    then have "\<forall>i<j. isRunning (simulationState (ticks i (startSimulation s)))"
      by simp
    from ticks_after_start [OF nr this]
    have "isRunning (simulationState (ticks j (startSimulation s)))
          = (j = 0 \<or> 0.001 < height_at (initialHeight s) (initialVelocity s) (gravity s) (real j / 10))"
      by blast
    then show ?case using above less.prems by auto
  qed
qed

lemma init_first_ticks:
  "\<forall>j<3. isRunning (simulationState (ticks j (startSimulation init)))"
proof (rule running_while_above_ground)
  show "\<not> isRunning (simulationState init)" by (simp add: init_def)
  show "\<forall>j. 0 < j \<and> j < 3 \<longrightarrow>
      0.001 < height_at (initialHeight init) (initialVelocity init) (gravity init) (real j / 10)"
  proof (intro allI impI)
    fix j :: nat
    assume "0 < j \<and> j < 3"
    then have "j = 1 \<or> j = 2" by arith
    then show "0.001 < height_at (initialHeight init) (initialVelocity init) (gravity init) (real j / 10)"
      by (auto simp: height_at_def displacement_at_def init_def gravity_def PLANETS_gravity_def
          power2_eq_square)
  qed
qed



subsection \<open>The history of a simulation\<close>



subsection \<open>Ground contact\<close>






subsection \<open>The trail\<close>





subsection \<open>The exported file\<close>

lemma replace_no_point: "CHR ''.'' \<notin> set a \<Longrightarrow> replace a ''.'' '','' = a"
  by (induction a) auto

lemma replace_first_point:
  "CHR ''.'' \<notin> set a \<Longrightarrow> replace (a @ ''.'' @ b) ''.'' '','' = a @ '','' @ b"
  by (induction a) auto

lemma decimal_comma_no_point: "CHR ''.'' \<notin> set a \<Longrightarrow> decimal_comma a = a"
  by (induction a) (auto simp: decimal_comma_def)

lemma decimal_comma_one_point:
  "CHR ''.'' \<notin> set a \<Longrightarrow> CHR ''.'' \<notin> set b \<Longrightarrow> decimal_comma (a @ ''.'' @ b) = a @ '','' @ b"
  using decimal_comma_no_point [of a] decimal_comma_no_point [of b]
  by (simp add: decimal_comma_def)

text \<open>
  The text of a number is a part without a point and then nothing or a point and
  digits; it holds no semicolon and no line feed. So replacing the first point
  replaces every point.
\<close>

lemma field_text:
  "replace (number_toString v) ''.'' '','' = decimal_comma (number_toString v) \<and>
   CHR ''.'' \<notin> set (replace (number_toString v) ''.'' '','') \<and>
   CHR '';'' \<notin> set (replace (number_toString v) ''.'' '','') \<and>
   CHR 0x0A \<notin> set (replace (number_toString v) ''.'' '','')"
proof (cases v)
  case None
  then show ?thesis
    by (simp add: number_toString_def decimal_comma_def)
next
  case (Some x)
  define n where "n = nat \<lfloor>\<bar>x\<bar> * 100\<rfloor>"
  define a where "a = (if x < 0 then ''-'' else []) @ digits (n div 100)"
  define ds where "ds = (if n mod 100 mod 10 = 0 then [digit_char (n mod 100 div 10)]
                         else [digit_char (n mod 100 div 10), digit_char (n mod 100 mod 10)])"
  have eq: "number_toString v = (if n mod 100 = 0 then a else a @ ''.'' @ ds)"
    by (simp add: Some number_toString_def Let_def n_def a_def ds_def)
  have dg: "\<forall>c\<in>set (digits (n div 100)). is_digit c" by (rule digits_all_digit)
  have d1: "is_digit (digit_char (n mod 100 div 10))"
    by (rule digit_char_is_digit) (simp add: div_less_iff_less_mult)
  have d2: "is_digit (digit_char (n mod 100 mod 10))"
    by (rule digit_char_is_digit) simp
  have sp: "\<And>c. is_digit c \<Longrightarrow> c \<noteq> CHR ''.'' \<and> c \<noteq> CHR '';'' \<and> c \<noteq> CHR 0x0A"
    using is_digit_not_special by blast
  have a1: "CHR ''.'' \<notin> set a" and a2: "CHR '';'' \<notin> set a" and a3: "CHR 0x0A \<notin> set a"
    using dg sp by (auto simp: a_def)
  have s1: "CHR ''.'' \<notin> set ds" and s2: "CHR '';'' \<notin> set ds" and s3: "CHR 0x0A \<notin> set ds"
    using sp [OF d1] sp [OF d2] by (auto simp: ds_def)
  show ?thesis
  proof (cases "n mod 100 = 0")
    case True
    then have t: "number_toString v = a" by (simp add: eq)
    show ?thesis
      unfolding t using a1 a2 a3 by (simp add: replace_no_point decimal_comma_no_point)
  next
    case False
    then have t: "number_toString v = a @ ''.'' @ ds" by (simp add: eq)
    show ?thesis
      unfolding t replace_first_point [OF a1] decimal_comma_one_point [OF a1 s1]
      using a1 a2 a3 s1 s2 s3 by simp
  qed
qed

lemma field_is_decimal_comma:
  "replace (number_toString v) ''.'' '','' = decimal_comma (number_toString v)"
  using field_text [of v] by (rule conjunct1)

lemma field_chars:
  "CHR ''.'' \<notin> set (decimal_comma (number_toString v))"
  "CHR '';'' \<notin> set (decimal_comma (number_toString v))"
  "CHR 0x0A \<notin> set (decimal_comma (number_toString v))"
  using field_text [of v] unfolding field_is_decimal_comma by blast+

lemma split_on_no_sep: "sep \<notin> set x \<Longrightarrow> split_on sep x = [x]"
  by (induction x) auto

lemma split_on_append: "sep \<notin> set x \<Longrightarrow> split_on sep (x @ sep # r) = x # split_on sep r"
  by (induction x) auto

lemma split_on_join:
  "xs \<noteq> [] \<Longrightarrow> \<forall>x\<in>set xs. sep \<notin> set x \<Longrightarrow> split_on sep (join [sep] xs) = xs"
proof (induction xs)
  case Nil
  then show ?case by simp
next
  case (Cons x xs)
  show ?case
  proof (cases xs)
    case Nil
    then show ?thesis using Cons.prems by (simp add: split_on_no_sep)
  next
    case (Cons y ys)
    then show ?thesis using Cons.IH Cons.prems by (simp add: split_on_append)
  qed
qed

lemma set_join: "c \<in> set (join sep xs) \<Longrightarrow> c \<in> set sep \<or> (\<exists>x\<in>set xs. c \<in> set x)"
  by (induction sep xs rule: join.induct) auto

lemma csvRow_fields:
  "csvRow row = join '';'' (map (\<lambda>v. replace (number_toString v) ''.'' '','') (row_fields row))"
  by (simp add: csvRow_def row_fields_def)

lemma split_csvRow:
  "split_on (CHR '';'') (csvRow row) = map (\<lambda>v. decimal_comma (number_toString v)) (row_fields row)"
proof -
  let ?fs = "map (\<lambda>v. replace (number_toString v) ''.'' '','') (row_fields row)"
  have ne: "?fs \<noteq> []" by (simp add: row_fields_def)
  have "\<forall>x\<in>set ?fs. CHR '';'' \<notin> set x"
    by (simp add: field_is_decimal_comma field_chars)
  from split_on_join [OF ne this]
  have "split_on (CHR '';'') (csvRow row) = ?fs"
    by (simp add: csvRow_fields)
  moreover have "?fs = map (\<lambda>v. decimal_comma (number_toString v)) (row_fields row)"
    by (simp add: field_is_decimal_comma)
  ultimately show ?thesis by simp
qed

lemma csvRow_one_line: "CHR 0x0A \<notin> set (csvRow row)"
proof
  assume "CHR 0x0A \<in> set (csvRow row)"
  then have "CHR 0x0A \<in> set '';'' \<or>
      (\<exists>x\<in>set (map (\<lambda>v. replace (number_toString v) ''.'' '','') (row_fields row)). CHR 0x0A \<in> set x)"
    unfolding csvRow_fields by (rule set_join)
  then show False by (auto simp: field_is_decimal_comma field_chars)
qed

lemma header_line:
  "CHR 0x0A \<notin> set (join '';'' headers) \<and> split_on (CHR '';'') (join '';'' headers) = headers \<and>
   length headers = 6"
proof -
  have "headers \<noteq> []" by (simp add: headers_def)
  moreover have "\<forall>x\<in>set headers. CHR '';'' \<notin> set x" by (simp add: headers_def)
  ultimately have "split_on (CHR '';'') (join '';'' headers) = headers"
    using split_on_join [of headers "CHR '';''"] by simp
  moreover have "CHR 0x0A \<notin> set (join '';'' headers)" by (simp add: headers_def)
  moreover have "length headers = 6" by (simp add: headers_def)
  ultimately show ?thesis by blast
qed

lemma split_csvContent:
  "split_on (CHR 0x0A) (csvContent h) = join '';'' headers # map csvRow h"
proof -
  have "\<forall>x\<in>set (join '';'' headers # map csvRow h). CHR 0x0A \<notin> set x"
    using header_line csvRow_one_line by auto
  then show ?thesis
    unfolding csvContent_def by (intro split_on_join) simp_all
qed

text \<open>
  Claim C4. For a history that is not empty the export makes the file
  \<^verbatim>\<open>serbest_dusme_verileri.csv\<close>. Split at the line feeds, its text is the header line
  and then the line of each row, in the order of the history: one line more than there
  are rows, so 4 lines for 3 rows. Split at the semicolons, the header line is the 6
  headers, and the line of a row is the 6 numbers of the row in the order time, height,
  velocity, acceleration, displacement, mass, each printed with its point turned into
  a comma; every line has 6 fields, and no field of a row holds a point.
\<close>

theorem export_has_a_header_and_one_line_per_record:
  assumes "dataHistory s \<noteq> []"
  shows "downloadCSV s = (s, Some (''serbest_dusme_verileri.csv'', csvContent (dataHistory s))) \<and>
         split_on (CHR 0x0A) (csvContent (dataHistory s))
           = join '';'' headers # map csvRow (dataHistory s) \<and>
         length (split_on (CHR 0x0A) (csvContent (dataHistory s))) = length (dataHistory s) + 1 \<and>
         (length (dataHistory s) = 3 \<longrightarrow>
            length (split_on (CHR 0x0A) (csvContent (dataHistory s))) = 4) \<and>
         split_on (CHR '';'') (join '';'' headers) = headers \<and> length headers = 6 \<and>
         (\<forall>row. split_on (CHR '';'') (csvRow row)
                 = map (\<lambda>v. decimal_comma (number_toString v)) (row_fields row)) \<and>
         (\<forall>l\<in>set (split_on (CHR 0x0A) (csvContent (dataHistory s))).
            length (split_on (CHR '';'') l) = 6) \<and>
         (\<forall>row. \<forall>f\<in>set (split_on (CHR '';'') (csvRow row)). CHR ''.'' \<notin> set f)"
proof -
  have a: "downloadCSV s = (s, Some (''serbest_dusme_verileri.csv'', csvContent (dataHistory s)))"
    using assms by (simp add: downloadCSV_def)
  note b = split_csvContent [of "dataHistory s"]
  have c: "length (split_on (CHR 0x0A) (csvContent (dataHistory s))) = length (dataHistory s) + 1"
    by (simp add: b)
  have c3: "length (dataHistory s) = 3 \<longrightarrow>
            length (split_on (CHR 0x0A) (csvContent (dataHistory s))) = 4"
    by (simp add: c)
  have d: "split_on (CHR '';'') (join '';'' headers) = headers" and e: "length headers = 6"
    using header_line by blast+
  have f: "\<forall>row. split_on (CHR '';'') (csvRow row)
                 = map (\<lambda>v. decimal_comma (number_toString v)) (row_fields row)"
    using split_csvRow by blast
  have g: "\<forall>l\<in>set (split_on (CHR 0x0A) (csvContent (dataHistory s))).
            length (split_on (CHR '';'') l) = 6"
    unfolding b using d e by (auto simp: split_csvRow row_fields_def)
  have h: "\<forall>row. \<forall>f\<in>set (split_on (CHR '';'') (csvRow row)). CHR ''.'' \<notin> set f"
  proof (intro allI ballI)
    fix row f
    assume "f \<in> set (split_on (CHR '';'') (csvRow row))"
    then obtain v where "f = decimal_comma (number_toString v)"
      unfolding split_csvRow by auto
    then show "CHR ''.'' \<notin> set f"
      by (simp add: field_chars)
  qed
  show ?thesis by (intro conjI a b c c3 d e f g h)
qed

text \<open>The line of the first row of a simulation with the initial parameters.\<close>

lemma example_row:
  "csvRow (tick_record init 1) = ''0,1;49,95;0,98;9,81;0,05;1''"
  by (simp add: csvRow_def tick_record_def Let_def init_def gravity_def PLANETS_gravity_def
      rounded_def height_at_def velocity_at_def displacement_at_def power2_eq_square
      number_toString_def digits.simps digit_char_def)

theorem export_has_a_header_and_one_line_per_record_witness:
  "dataHistory (ticks 3 (startSimulation init)) \<noteq> [] \<and>
   length (dataHistory (ticks 3 (startSimulation init))) = 3 \<and>
   length (split_on (CHR 0x0A) (csvContent (dataHistory (ticks 3 (startSimulation init))))) = 4 \<and>
   split_on (CHR 0x0A) (csvContent (dataHistory (ticks 3 (startSimulation init)))) ! 1
     = ''0,1;49,95;0,98;9,81;0,05;1'' \<and>
   split_on (CHR '';'') ''0,1;49,95;0,98;9,81;0,05;1''
     = [''0,1'', ''49,95'', ''0,98'', ''9,81'', ''0,05'', ''1'']"
proof -
  have nr: "\<not> isRunning (simulationState init)"
    by (simp add: init_def)
  have hist: "dataHistory (ticks 3 (startSimulation init)) = map (tick_record init) [1 ..< Suc 3]"
    using ticks_after_start [OF nr init_first_ticks] by blast
  have ne: "dataHistory (ticks 3 (startSimulation init)) \<noteq> []"
    by (simp add: hist)
  have l: "length (dataHistory (ticks 3 (startSimulation init))) = 3"
    by (simp add: hist)
  note th = export_has_a_header_and_one_line_per_record [OF ne]
  have a: "length (split_on (CHR 0x0A) (csvContent (dataHistory (ticks 3 (startSimulation init))))) = 4"
    using th l by blast
  have "split_on (CHR 0x0A) (csvContent (dataHistory (ticks 3 (startSimulation init))))
          = join '';'' headers # map csvRow (dataHistory (ticks 3 (startSimulation init)))"
    using th by blast
  then have "split_on (CHR 0x0A) (csvContent (dataHistory (ticks 3 (startSimulation init)))) ! 1
          = csvRow (tick_record init 1)"
    by (simp add: hist upt_rec)
  then have b: "split_on (CHR 0x0A) (csvContent (dataHistory (ticks 3 (startSimulation init)))) ! 1
          = ''0,1;49,95;0,98;9,81;0,05;1''"
    by (simp only: example_row)
  have c: "split_on (CHR '';'') ''0,1;49,95;0,98;9,81;0,05;1''
     = [''0,1'', ''49,95'', ''0,98'', ''9,81'', ''0,05'', ''1'']"
    by simp
  show ?thesis by (intro conjI ne l a b c)
qed

subsection \<open>The numbers in the rows and their text\<close>

text \<open>
  Every number that a tick writes into a row has at most two fractional digits, so
  the rows of every history the component reaches hold only such numbers.
\<close>

lemma two_decimals_rounded: "two_decimals (Some (rounded x 2)) \<and> two_decimals (Some (rounded x 1))"
proof -
  define n2 where "n2 = nat \<lfloor>\<bar>x\<bar> * 10 ^ 2 + 1 / 2\<rfloor>"
  define n1 where "n1 = nat \<lfloor>\<bar>x\<bar> * 10 ^ 1 + 1 / 2\<rfloor>"
  have r2: "rounded x 2 * 100 = (if x < 0 then - real n2 else real n2)"
    by (simp add: rounded_def n2_def)
  have r1: "rounded x 1 * 100 = (if x < 0 then - real (10 * n1) else real (10 * n1))"
    by (simp add: rounded_def n1_def)
  have "rounded x 2 * 100 = of_int \<lfloor>rounded x 2 * 100\<rfloor>"
    unfolding r2 by (cases "x < 0") simp_all
  moreover have "rounded x 1 * 100 = of_int \<lfloor>rounded x 1 * 100\<rfloor>"
    unfolding r1 by (cases "x < 0") simp_all
  ultimately show ?thesis by (simp add: two_decimals_def)
qed

lemma step_keeps_rows_two_decimals:
  assumes "rows_two_decimals (dataHistory s)"
  shows "rows_two_decimals (dataHistory (step e s))"
proof (cases e)
  case Tick
  show ?thesis
  proof (cases "intervalRef s")
    case None
    then show ?thesis using assms by (simp add: Tick step_def tick_idle)
  next
    case (Some c)
    show ?thesis
      using assms two_decimals_rounded
      by (simp add: Tick step_def tick_running(7) [OF Some] rows_two_decimals_def row_fields_def)
  qed
next
  case (BounceTick i)
  then show ?thesis
    using assms by (simp add: step_def bounceTick_def Let_def)
qed (use assms in \<open>auto simp: step_def rows_two_decimals_def startSimulation_def Let_def
      stopSimulation_def restartSimulation_def handleMainTablePageChange_def
      handleModalPageChange_def downloadCSV_def\<close>)

lemma reachable_rows_two_decimals: "rows_two_decimals (dataHistory (run evs init))"
proof -
  have r: "rows_two_decimals (dataHistory s) \<Longrightarrow> rows_two_decimals (dataHistory (run evs s))" for s
    by (induction evs arbitrary: s) (simp_all add: step_keeps_rows_two_decimals)
  have "rows_two_decimals (dataHistory init)"
    by (simp add: init_def rows_two_decimals_def)
  then show ?thesis by (rule r)
qed

lemma digits_val_two: "a < 10 \<Longrightarrow> b < 10 \<Longrightarrow> digits_val [digit_char a, digit_char b] = 10 * a + b"
  by (simp add: digits_val_def digit_val_digit_char)

lemma digits_val_one: "a < 10 \<Longrightarrow> digits_val [digit_char a] = a"
  by (simp add: digits_val_def digit_val_digit_char)

text \<open>The text of a natural number of hundredths, without a sign, and its value.\<close>

lemma parse_hundredths:
  fixes n :: nat
  defines "body \<equiv> digits (n div 100) @
              (if n mod 100 = 0 then []
               else if n mod 100 mod 10 = 0 then ''.'' @ [digit_char (n mod 100 div 10)]
               else ''.'' @ [digit_char (n mod 100 div 10), digit_char (n mod 100 mod 10)])"
  shows "body \<noteq> [] \<and> is_digit (hd body) \<and> parse_unsigned body = Some (real n / 100)"
proof -
  define ip fp where "ip = n div 100" and "fp = n mod 100"
  have n: "real n = 100 * real ip + real fp"
    unfolding ip_def fp_def by (metis of_nat_add of_nat_mult of_nat_numeral div_mult_mod_eq mult.commute)
  have fp: "fp < 100" by (simp add: fp_def)
  have a: "fp div 10 < 10" using fp by (simp add: div_less_iff_less_mult)
  have b: "fp mod 10 < 10" by simp
  have da: "\<forall>c\<in>set (digits ip). is_digit c" by (rule digits_all_digit)
  have ne: "digits ip \<noteq> []" by (rule digits_nonempty)
  have hdd: "is_digit (hd (digits ip))"
    using da ne hd_in_set by blast
  have body: "body = digits ip @
              (if fp = 0 then []
               else if fp mod 10 = 0 then ''.'' @ [digit_char (fp div 10)]
               else ''.'' @ [digit_char (fp div 10), digit_char (fp mod 10)])"
    by (simp add: body_def ip_def fp_def)
  have h: "body \<noteq> [] \<and> is_digit (hd body)"
    using ne hdd by (simp add: body)
  have v: "parse_unsigned body = Some (real n / 100)"
  proof (cases "fp = 0")
    case True
    then show ?thesis
      using parse_unsigned_digits [OF da ne] n by (simp add: body digits_val_digits)
  next
    case False
    show ?thesis
    proof (cases "fp mod 10 = 0")
      case True
      have d: "\<forall>c\<in>set [digit_char (fp div 10)]. is_digit c"
        using digit_char_is_digit [OF a] by simp
      have "real fp = 10 * real (fp div 10)"
        using True by (metis add.right_neutral div_mult_mod_eq mult.commute of_nat_mult of_nat_numeral)
      then show ?thesis
        using parse_unsigned_point [OF da d ne] False True n
        by (simp add: body digits_val_digits digits_val_one [OF a])
    next
      case nz: False
      have d: "\<forall>c\<in>set [digit_char (fp div 10), digit_char (fp mod 10)]. is_digit c"
        using digit_char_is_digit [OF a] digit_char_is_digit [OF b] by simp
      have "real fp = real (10 * (fp div 10) + fp mod 10)"
        by simp
      then show ?thesis
        using parse_unsigned_point [OF da d ne] False nz n
        by (simp add: body digits_val_digits digits_val_two [OF a b] del: of_nat_add of_nat_mult)
    qed
  qed
  from h v show ?thesis by blast
qed

text \<open>
  For a number of at most two fractional digits, \<open>number_toString\<close> is a text of the
  number: \<^verbatim>\<open>parseFloat\<close> reads the number back from it.
\<close>

lemma parseFloat_number_toString:
  assumes "two_decimals (Some x)"
  shows "parseFloat (number_toString (Some x)) = Some x"
proof -
  define n where "n = nat \<lfloor>\<bar>x\<bar> * 100\<rfloor>"
  define body where "body = digits (n div 100) @
              (if n mod 100 = 0 then []
               else if n mod 100 mod 10 = 0 then ''.'' @ [digit_char (n mod 100 div 10)]
               else ''.'' @ [digit_char (n mod 100 div 10), digit_char (n mod 100 mod 10)])"
  have eq: "number_toString (Some x) = (if x < 0 then ''-'' else []) @ body"
    by (simp add: number_toString_def Let_def n_def body_def)
  have x100: "x * 100 = of_int \<lfloor>x * 100\<rfloor>"
    using assms by (simp add: two_decimals_def)
  have "\<bar>x\<bar> * 100 = of_int \<bar>\<lfloor>x * 100\<rfloor>\<bar>"
  proof -
    have "\<bar>x\<bar> * 100 = \<bar>x * 100\<bar>" by simp
    also have "\<dots> = \<bar>of_int \<lfloor>x * 100\<rfloor>\<bar>" using x100 by simp
    finally show ?thesis by simp
  qed
  then have "\<lfloor>\<bar>x\<bar> * 100\<rfloor> = \<bar>\<lfloor>x * 100\<rfloor>\<bar>"
    by (simp only: floor_of_int)
  then have "real n = \<bar>x\<bar> * 100"
    using \<open>\<bar>x\<bar> * 100 = of_int \<bar>\<lfloor>x * 100\<rfloor>\<bar>\<close> by (simp add: n_def)
  then have val: "real n / 100 = \<bar>x\<bar>" by simp
  note p = parse_hundredths [of n, folded body_def]
  show ?thesis
  proof (cases "x < 0")
    case True
    then show ?thesis
      using p val parseFloat_minus [of body] by (simp add: eq)
  next
    case False
    then show ?thesis
      using p val parseFloat_unsigned [of body] by (simp add: eq)
  qed
qed

subsection \<open>Every simulation ends\<close>

text \<open>
  With valid parameters the gravity is positive, so some tick is the first whose height
  is at most 0.001: ground contact always comes, and the driver stops there.
\<close>

lemma ground_is_reached:
  assumes "valid_parameters s"
  shows "\<exists>m>0. height_at (initialHeight s) (initialVelocity s) (gravity s) (real m / 10) \<le> 0.001 \<and>
           (\<forall>j. 0 < j \<and> j < m \<longrightarrow>
              0.001 < height_at (initialHeight s) (initialVelocity s) (gravity s) (real j / 10))"
proof -
  define h0 v0 g where "h0 = initialHeight s" and "v0 = initialVelocity s" and "g = gravity s"
  have h0: "0 \<le> h0" and g: "0 < g"
    using assms by (simp_all add: valid_parameters_def h0_def g_def)
  define P where "P m \<longleftrightarrow> 0 < m \<and> height_at h0 v0 g (real m / 10) \<le> 0.001" for m :: nat
  have ex: "\<exists>m. P m"
  proof -
    define T where "T = max 1 (2 * (\<bar>v0\<bar> + h0) / g)"
    define m where "m = nat \<lceil>10 * T\<rceil>"
    define t where "t = real m / 10"
    have T1: "1 \<le> T" by (simp add: T_def)
    have "10 * T \<le> real m"
      unfolding m_def using T1 by (simp add: of_nat_ceiling)
    then have tT: "T \<le> t" by (simp add: t_def)
    have t1: "1 \<le> t" using T1 tT by simp
    have mpos: "0 < m"
    proof (rule ccontr)
      assume "\<not> 0 < m"
      then have "t = 0" by (simp add: t_def)
      with t1 show False by simp
    qed
    have "2 * (\<bar>v0\<bar> + h0) / g \<le> t" using tT by (simp add: T_def)
    then have "2 * (\<bar>v0\<bar> + h0) \<le> t * g"
      using g by (simp add: pos_divide_le_eq)
    then have "h0 \<le> v0 + g * t / 2"
      by (simp add: abs_real_def mult.commute split: if_splits)
    then have "1 * h0 \<le> t * (v0 + g * t / 2)"
      using t1 h0 by (intro mult_mono) simp_all
    moreover have "displacement_at v0 g t = t * (v0 + g * t / 2)"
      by (simp add: displacement_at_def power2_eq_square algebra_simps)
    ultimately have "h0 - displacement_at v0 g t \<le> 0" by simp
    then have "height_at h0 v0 g t \<le> 0.001"
      by (simp add: height_at_def)
    then have "P m" using mpos by (simp add: P_def t_def)
    then show ?thesis ..
  qed
  define m0 where "m0 = (LEAST m. P m)"
  have "P m0" unfolding m0_def using ex by (rule LeastI_ex)
  moreover have "\<not> P j" if "j < m0" for j
    using that unfolding m0_def by (rule not_less_Least)
  ultimately have "0 < m0 \<and> height_at h0 v0 g (real m0 / 10) \<le> 0.001 \<and>
      (\<forall>j. 0 < j \<and> j < m0 \<longrightarrow> 0.001 < height_at h0 v0 g (real j / 10))"
    by (auto simp: P_def not_le)
  then show ?thesis
    unfolding h0_def v0_def g_def by blast
qed

lemma every_simulation_stops:
  assumes "valid_parameters s" and "\<not> isRunning (simulationState s)"
  shows "\<exists>m>0. (\<forall>j<m. isRunning (simulationState (ticks j (startSimulation s)))) \<and>
               \<not> isRunning (simulationState (ticks m (startSimulation s))) \<and>
               length (dataHistory (ticks m (startSimulation s))) = m"
proof -
  from ground_is_reached [OF assms(1)] obtain m where m: "0 < m"
    and ground: "height_at (initialHeight s) (initialVelocity s) (gravity s) (real m / 10) \<le> 0.001"
    and above: "\<forall>j. 0 < j \<and> j < m \<longrightarrow>
              0.001 < height_at (initialHeight s) (initialVelocity s) (gravity s) (real j / 10)"
    by blast
  note fired = running_while_above_ground [OF assms(2) above]
  note at_m = ticks_after_start [OF assms(2) fired]
  have "isRunning (simulationState (ticks m (startSimulation s)))
           = (m = 0 \<or> 0.001 < height_at (initialHeight s) (initialVelocity s) (gravity s) (real m / 10))"
    using at_m by blast
  then have stop: "\<not> isRunning (simulationState (ticks m (startSimulation s)))"
    using m ground by simp
  have "dataHistory (ticks m (startSimulation s)) = map (tick_record s) [1 ..< Suc m]"
    using at_m by blast
  then have "length (dataHistory (ticks m (startSimulation s))) = m"
    by simp
  with m fired stop show ?thesis by blast
qed

end
